theory Spec2Isabelle
  imports Main "HOL-Library.Word"
begin

unbundle bit_operations_syntax

section \<open>Go values used by the connection code\<close>

text \<open>
  The theory embeds \<^verbatim>\<open>server_conn.go\<close> (package \<^verbatim>\<open>mc\<close>) and, for the
  comparison of the two snapshot implementations, the earlier version of the same file.
  A Go call either returns or panics; a panic is the value \<open>Panics\<close>, so that every
  out-of-range slice expression and every failed type switch of the source is a branch
  of the model.
\<close>

datatype 'a result = Panics | Returns 'a

type_synonym byte = "8 word"

text \<open>A Go \<^verbatim>\<open>string\<close> is an immutable sequence of bytes.\<close>

type_synonym gostring = "byte list"

subsection \<open>Slices\<close>

text \<open>
  A slice is a window on a backing array: \<open>elts\<close> are the elements below its length,
  \<open>room\<close> the elements of the array between its length and its capacity.  Each slice
  value carries its own array: two slices of the model never share storage.
\<close>

record 'a slice =
  elts :: "'a list"
  room :: "'a list"

definition len :: "'a slice \<Rightarrow> nat" where
  "len s = length (elts s)"

definition cap :: "'a slice \<Rightarrow> nat" where
  "cap s = length (elts s) + length (room s)"

definition backing :: "'a slice \<Rightarrow> 'a list" where
  "backing s = elts s @ room s"

text \<open>\<^verbatim>\<open>nil\<close>, and \<^verbatim>\<open>make([]T, n)\<close> with the zero value \<open>z\<close> of \<open>T\<close>.\<close>

definition nil_slice :: "'a slice" where
  "nil_slice = \<lparr>elts = [], room = []\<rparr>"

definition make_slice :: "'a \<Rightarrow> nat \<Rightarrow> 'a slice" where
  "make_slice z n = \<lparr>elts = replicate n z, room = []\<rparr>"

text \<open>\<^verbatim>\<open>s[:n]\<close> where the source has established \<open>n \<le> cap s\<close>.\<close>

definition reslice :: "'a slice \<Rightarrow> nat \<Rightarrow> 'a slice" where
  "reslice s n = \<lparr>elts = take n (backing s), room = drop n (backing s)\<rparr>"

text \<open>\<^verbatim>\<open>s[:n]\<close> for an \<^verbatim>\<open>int\<close> \<open>n\<close>: a run-time panic unless \<open>0 \<le> n \<le> cap s\<close>.\<close>

definition slice_to :: "'a slice \<Rightarrow> int \<Rightarrow> 'a slice result" where
  "slice_to s n = (if 0 \<le> n \<and> nat n \<le> cap s then Returns (reslice s (nat n)) else Panics)"

text \<open>\<^verbatim>\<open>copy(dst, src)\<close> overwrites the first \<open>min (len dst) (len src)\<close> elements.\<close>

definition copy_slice :: "'a slice \<Rightarrow> 'a slice \<Rightarrow> 'a slice" where
  "copy_slice dst src =
     (let n = min (len dst) (len src)
      in dst\<lparr>elts := take n (elts src) @ drop n (elts dst)\<rparr>)"

text \<open>
  \<^verbatim>\<open>append(s, v)\<close>: in place while there is room, otherwise into a new array.  The
  capacity of the new array is the run-time's choice (amortised doubling here); nothing
  below depends on it.
\<close>

definition append_slice :: "'a \<Rightarrow> 'a slice \<Rightarrow> 'a \<Rightarrow> 'a slice" where
  "append_slice z s v =
     (case room s of
        _ # r \<Rightarrow> \<lparr>elts = elts s @ [v], room = r\<rparr>
      | [] \<Rightarrow> \<lparr>elts = elts s @ [v], room = replicate (len s) z\<rparr>)"

section \<open>The tiered body-buffer pools\<close>

text \<open>
  The three package-level \<^verbatim>\<open>sync.Pool\<close>s.  A pool is modelled as the list of the
  buffers put back and not yet taken out.  \<^verbatim>\<open>Get\<close> hands out an arbitrary one of
  them, or ignores them and calls \<^verbatim>\<open>New\<close>; which, is the choice of the run-time
  system and not of the program.  \<open>picks\<close> is not a variable of the package: it lists
  the choices that the run-time system makes at the calls of \<^verbatim>\<open>Get\<close> to come, \<open>Some i\<close>
  for the pooled buffer at position \<open>i\<close> (a new buffer if there is none) and \<open>None\<close>
  for a new buffer; past the end of the list every buffer is new.  A buffer that the
  run-time system drops from a pool is one that it never picks.
\<close>

record pools =
  smallBodyPool :: "byte slice list"
  mediumBodyPool :: "byte slice list"
  largeBodyPool :: "byte slice list"
  picks :: "nat option list"

definition next_pick :: "pools \<Rightarrow> nat option \<times> pools" where
  "next_pick ps = (case picks ps of [] \<Rightarrow> (None, ps) | x # xs \<Rightarrow> (x, ps\<lparr>picks := xs\<rparr>))"

definition pool_Get :: "nat \<Rightarrow> nat option \<Rightarrow> byte slice list \<Rightarrow> byte slice \<times> byte slice list" where
  "pool_Get n pick p =
     (case pick of
        None \<Rightarrow> (make_slice 0 n, p)
      | Some i \<Rightarrow>
          if i < length p then (p ! i, take i p @ drop (Suc i) p) else (make_slice 0 n, p))"

definition getBodyBuffer :: "int \<Rightarrow> pools \<Rightarrow> (byte slice \<times> pools) result" where
  "getBodyBuffer sz ps =
     (if sz \<le> 256 then
        (let (pick, ps') = next_pick ps;
             (b, p) = pool_Get 256 pick (smallBodyPool ps')
         in case slice_to b sz of
              Panics \<Rightarrow> Panics
            | Returns s \<Rightarrow> Returns (s, ps'\<lparr>smallBodyPool := p\<rparr>))
      else if sz \<le> 4096 then
        (let (pick, ps') = next_pick ps;
             (b, p) = pool_Get 4096 pick (mediumBodyPool ps')
         in case slice_to b sz of
              Panics \<Rightarrow> Panics
            | Returns s \<Rightarrow> Returns (s, ps'\<lparr>mediumBodyPool := p\<rparr>))
      else if sz \<le> 65536 then
        (let (pick, ps') = next_pick ps;
             (b, p) = pool_Get 65536 pick (largeBodyPool ps')
         in case slice_to b sz of
              Panics \<Rightarrow> Panics
            | Returns s \<Rightarrow> Returns (s, ps'\<lparr>largeBodyPool := p\<rparr>))
      else Returns (make_slice 0 (nat sz), ps))"

definition putBodyBuffer :: "byte slice \<Rightarrow> pools \<Rightarrow> pools" where
  "putBodyBuffer buf ps =
     (let c = cap buf
      in if c = 256 then ps\<lparr>smallBodyPool := reslice buf c # smallBodyPool ps\<rparr>
         else if c = 4096 then ps\<lparr>mediumBodyPool := reslice buf c # mediumBodyPool ps\<rparr>
         else if c = 65536 then ps\<lparr>largeBodyPool := reslice buf c # largeBodyPool ps\<rparr>
         else ps)"

text \<open>
  Every buffer in a pool has the capacity of its tier.  The pools start empty;
  \<open>putBodyBuffer\<close> alone adds to them and \<^verbatim>\<open>Get\<close> alone takes from them, and both
  keep this.
\<close>

definition pools_ok :: "pools \<Rightarrow> bool" where
  "pools_ok ps =
     (list_all (\<lambda>b. cap b = 256) (smallBodyPool ps) \<and>
      list_all (\<lambda>b. cap b = 4096) (mediumBodyPool ps) \<and>
      list_all (\<lambda>b. cap b = 65536) (largeBodyPool ps))"

definition empty_pools :: pools where
  "empty_pools = \<lparr>smallBodyPool = [], mediumBodyPool = [], largeBodyPool = [], picks = []\<rparr>"

section \<open>Messages\<close>

text \<open>
  The extras of a message are \<^verbatim>\<open>[]interface{}\<close>: \<open>iextras\<close> holds unsigned
  integers to send, \<open>oextras\<close> holds pointers to the caller's variables that a receive
  fills.  \<open>iface\<close> is the dynamic value of such an element: an unsigned integer of one
  of the four widths, a (non-nil) pointer to a variable of one of the four widths, named
  by its address, the nil interface, or a value of any other dynamic type, named by the
  type.
\<close>

datatype iface =
    NilIface
  | U8 "8 word" | U16 "16 word" | U32 "32 word" | U64 "64 word"
  | PU8 nat | PU16 nat | PU32 nat | PU64 nat
  | Other string

text \<open>
  The struct types \<^verbatim>\<open>header\<close> and \<^verbatim>\<open>msg\<close>; the field types are those the
  encoder and the decoder of \<^verbatim>\<open>server_conn.go\<close> use them at (\<^verbatim>\<open>magicCode\<close> and
  \<^verbatim>\<open>opCode\<close> are converted to and from \<^verbatim>\<open>uint8\<close>).  \<^verbatim>\<open>msg\<close> embeds
  \<^verbatim>\<open>header\<close>.
\<close>

record header =
  Magic :: "8 word"
  Op :: "8 word"
  KeyLen :: "16 word"
  ExtraLen :: "8 word"
  DataType :: "8 word"
  ResvOrStatus :: "16 word"
  BodyLen :: "32 word"
  Opaque :: "32 word"
  CAS :: "64 word"

record msg =
  header :: header
  iextras :: "iface slice"
  oextras :: "iface slice"
  key :: gostring
  val :: gostring

subsection \<open>Snapshot and restore (\<^verbatim>\<open>server_conn.go\<close>)\<close>

text \<open>
  \<open>backupMsg m b\<close> is the snapshot slot after \<^verbatim>\<open>backupMsg(m, &b)\<close>, and
  \<open>restoreMsg m b\<close> the message after \<^verbatim>\<open>restoreMsg(&m, &b)\<close>.  The message and
  the slot are two objects (the slot is the connection's own field), and no two of their
  slices share an array.
\<close>

definition backupMsg :: "msg \<Rightarrow> msg \<Rightarrow> msg" where
  "backupMsg m b =
     (let b1 = b\<lparr>key := key m, val := val m, header := header m\<rparr>;
          ie = (if cap (iextras b1) \<ge> len (iextras m)
                then reslice (iextras b1) (len (iextras m))
                else make_slice NilIface (len (iextras m)));
          b2 = b1\<lparr>iextras := copy_slice ie (iextras m)\<rparr>;
          oe = (if cap (oextras b2) \<ge> len (oextras m)
                then reslice (oextras b2) (len (oextras m))
                else make_slice NilIface (len (oextras m)))
      in b2\<lparr>oextras := copy_slice oe (oextras m)\<rparr>)"

definition restoreMsg :: "msg \<Rightarrow> msg \<Rightarrow> msg" where
  "restoreMsg m b =
     (let m1 = m\<lparr>key := key b, val := val b, header := header b\<rparr>;
          ie = (if cap (iextras m1) \<ge> len (iextras b)
                then reslice (iextras m1) (len (iextras b))
                else make_slice NilIface (len (iextras b)));
          m2 = m1\<lparr>iextras := copy_slice ie (iextras b)\<rparr>;
          oe = (if cap (oextras m2) \<ge> len (oextras b)
                then reslice (oextras m2) (len (oextras b))
                else make_slice NilIface (len (oextras b)))
      in m2\<lparr>oextras := copy_slice oe (oextras b)\<rparr>)"

subsection \<open>Snapshot and restore (the earlier version of the file)\<close>

text \<open>
  The earlier version copies the header field by field, and rebuilds each extras slice
  from \<^verbatim>\<open>nil\<close> with one \<^verbatim>\<open>append\<close> per element.
\<close>

definition copy_header_fields :: "header \<Rightarrow> header \<Rightarrow> header" where
  "copy_header_fields dst src =
     dst\<lparr>Magic := Magic src, Op := Op src, KeyLen := KeyLen src, ExtraLen := ExtraLen src,
         DataType := DataType src, ResvOrStatus := ResvOrStatus src, BodyLen := BodyLen src,
         Opaque := Opaque src, CAS := CAS src\<rparr>"

definition append_all :: "iface slice \<Rightarrow> iface list \<Rightarrow> iface slice" where
  "append_all s vs = foldl (append_slice NilIface) s vs"

definition backupMsg_orig :: "msg \<Rightarrow> msg \<Rightarrow> msg" where
  "backupMsg_orig m b =
     (let b1 = b\<lparr>key := key m, val := val m,
                  header := copy_header_fields (header b) (header m)\<rparr>;
          b2 = b1\<lparr>iextras := append_all nil_slice (elts (iextras m))\<rparr>
      in b2\<lparr>oextras := append_all nil_slice (elts (oextras m))\<rparr>)"

definition restoreMsg_orig :: "msg \<Rightarrow> msg \<Rightarrow> msg" where
  "restoreMsg_orig m b =
     (let m1 = m\<lparr>key := key b, val := val b,
                  header := copy_header_fields (header m) (header b)\<rparr>;
          m2 = m1\<lparr>iextras := append_all nil_slice (elts (iextras b))\<rparr>
      in m2\<lparr>oextras := append_all nil_slice (elts (oextras b))\<rparr>)"

section \<open>Declarations of the package outside this file\<close>

text \<open>
  \<^verbatim>\<open>server_conn.go\<close> uses constants and the function \<^verbatim>\<open>newError\<close> that the
  package declares in other files.  They are parameters of the model: every function
  below takes a record \<open>D\<close> of them, and the theorems hold for every choice of their
  values unless a hypothesis says otherwise.
\<close>

text \<open>
  The package's \<^verbatim>\<open>Error\<close> struct, built in this file as
  \<^verbatim>\<open>&Error{StatusNetworkError, "...", nil}\<close>: a status and a message.  The code reads
  the status only.
\<close>

record Error =
  Status :: "16 word"

record decls =
  magicSend :: "8 word"
  opAuthList :: "8 word"
  opAuthStart :: "8 word"
  StatusNetworkError :: "16 word"
  StatusUnknownCommand :: "16 word"
  StatusAuthUnknown :: "16 word"
  newError :: "16 word \<Rightarrow> Error option"

text \<open>
  Modelled from the spec: \<^verbatim>\<open>wrapError(status, err)\<close>, declared outside this file,
  wraps an I/O error into an \<^verbatim>\<open>Error\<close> of the given status (the spec's
  network-class error, which \<open>resetConn\<close> recognises by that status).
\<close>

definition wrapError :: "16 word \<Rightarrow> Error" where
  "wrapError st = \<lparr>Status = st\<rparr>"

section \<open>Big-endian integers (\<^verbatim>\<open>encoding/binary\<close>)\<close>

definition PutUint16 :: "16 word \<Rightarrow> byte list" where
  "PutUint16 v = [ucast (drop_bit 8 v), ucast v]"

definition PutUint32 :: "32 word \<Rightarrow> byte list" where
  "PutUint32 v = [ucast (drop_bit 24 v), ucast (drop_bit 16 v), ucast (drop_bit 8 v), ucast v]"

definition PutUint64 :: "64 word \<Rightarrow> byte list" where
  "PutUint64 v =
     [ucast (drop_bit 56 v), ucast (drop_bit 48 v), ucast (drop_bit 40 v), ucast (drop_bit 32 v),
      ucast (drop_bit 24 v), ucast (drop_bit 16 v), ucast (drop_bit 8 v), ucast v]"

definition be16 :: "byte \<Rightarrow> byte \<Rightarrow> 16 word" where
  "be16 b0 b1 = ucast b1 OR push_bit 8 (ucast b0)"

definition be32 :: "byte \<Rightarrow> byte \<Rightarrow> byte \<Rightarrow> byte \<Rightarrow> 32 word" where
  "be32 b0 b1 b2 b3 =
     ucast b3 OR push_bit 8 (ucast b2) OR push_bit 16 (ucast b1) OR push_bit 24 (ucast b0)"

definition be64 ::
  "byte \<Rightarrow> byte \<Rightarrow> byte \<Rightarrow> byte \<Rightarrow> byte \<Rightarrow> byte \<Rightarrow> byte \<Rightarrow> byte \<Rightarrow> 64 word" where
  "be64 b0 b1 b2 b3 b4 b5 b6 b7 =
     ucast b7 OR push_bit 8 (ucast b6) OR push_bit 16 (ucast b5) OR push_bit 24 (ucast b4) OR
     push_bit 32 (ucast b3) OR push_bit 40 (ucast b2) OR push_bit 48 (ucast b1) OR
     push_bit 56 (ucast b0)"

text \<open>
  \<^verbatim>\<open>binary.BigEndian.Uint16(b)\<close> and its siblings read the first bytes of a slice
  and panic on a shorter one; \<^verbatim>\<open>b[i]\<close> and \<^verbatim>\<open>b[i:]\<close> panic out of range.
\<close>

definition Uint16 :: "byte list \<Rightarrow> 16 word result" where
  "Uint16 b = (case b of b0 # b1 # _ \<Rightarrow> Returns (be16 b0 b1) | _ \<Rightarrow> Panics)"

definition Uint32 :: "byte list \<Rightarrow> 32 word result" where
  "Uint32 b = (case b of b0 # b1 # b2 # b3 # _ \<Rightarrow> Returns (be32 b0 b1 b2 b3) | _ \<Rightarrow> Panics)"

definition Uint64 :: "byte list \<Rightarrow> 64 word result" where
  "Uint64 b =
     (case b of
        b0 # b1 # b2 # b3 # b4 # b5 # b6 # b7 # _ \<Rightarrow> Returns (be64 b0 b1 b2 b3 b4 b5 b6 b7)
      | _ \<Rightarrow> Panics)"

definition index :: "byte list \<Rightarrow> nat \<Rightarrow> byte result" where
  "index b i = (if i < length b then Returns (b ! i) else Panics)"

definition slice_from :: "byte list \<Rightarrow> nat \<Rightarrow> byte list result" where
  "slice_from b i = (if i \<le> length b then Returns (drop i b) else Panics)"

section \<open>The connection\<close>

text \<open>
  The socket together with the buffered reader and writer on it.  \<open>rd\<close> are the bytes
  the peer delivers before the stream ends (end of file, an error or the read
  deadline); \<open>wr\<close> are the bytes written so far; \<open>wfail\<close> is the environment's choice
  of the write-side call that fails: \<open>Some k\<close> lets \<open>k\<close> more calls of
  \<^verbatim>\<open>Write\<close>, \<^verbatim>\<open>WriteByte\<close>, \<^verbatim>\<open>WriteString\<close> or \<^verbatim>\<open>Flush\<close> succeed and
  fails every later one, \<open>None\<close> fails none.
\<close>

record netconn =
  rd :: "byte list"
  wr :: "byte list"
  wfail :: "nat option"

definition rw_Write :: "byte list \<Rightarrow> netconn \<Rightarrow> bool \<times> netconn" where
  "rw_Write bs c =
     (case wfail c of
        None \<Rightarrow> (True, c\<lparr>wr := wr c @ bs\<rparr>)
      | Some k \<Rightarrow>
          (case k of
             0 \<Rightarrow> (False, c)
           | Suc j \<Rightarrow> (True, c\<lparr>wr := wr c @ bs, wfail := Some j\<rparr>)))"

definition rw_Flush :: "netconn \<Rightarrow> bool \<times> netconn" where
  "rw_Flush c =
     (case wfail c of
        None \<Rightarrow> (True, c)
      | Some k \<Rightarrow> (case k of 0 \<Rightarrow> (False, c) | Suc j \<Rightarrow> (True, c\<lparr>wfail := Some j\<rparr>)))"

text \<open>
  \<^verbatim>\<open>io.ReadFull(rw, buf)\<close> for a buffer of \<open>n\<close> bytes: all \<open>n\<close> bytes, or an error
  after the bytes that were left.
\<close>

definition ReadFull :: "netconn \<Rightarrow> nat \<Rightarrow> bool \<times> byte list \<times> netconn" where
  "ReadFull c n =
     (if n \<le> length (rd c) then (True, take n (rd c), c\<lparr>rd := drop n (rd c)\<rparr>)
      else (False, rd c, c\<lparr>rd := []\<rparr>))"

text \<open>The bytes read land at the start of the buffer.\<close>

definition fill :: "byte list \<Rightarrow> byte list \<Rightarrow> byte list" where
  "fill buf got = got @ drop (length got) buf"

text \<open>
  The struct \<^verbatim>\<open>serverConn\<close>.  \<open>conn\<close> is \<open>None\<close> for a nil \<^verbatim>\<open>net.Conn\<close>;
  \<open>rw\<close> tells whether the \<^verbatim>\<open>*bufio.ReadWriter\<close> is non-nil (it reads and writes
  \<open>conn\<close>); the field \<^verbatim>\<open>backupMsg\<close> is \<open>backupSlot\<close>.  The address and the
  configuration (time-outs, TCP options) do not influence the values computed and are
  left out.  \<open>closes\<close> is not a field of the struct: it counts the calls of
  \<^verbatim>\<open>conn.Close()\<close> made so far.
\<close>

record serverConn =
  scheme :: string
  username :: gostring
  password :: gostring
  conn :: "netconn option"
  rw :: bool
  opq :: "32 word"
  backupSlot :: msg
  hdrBuf :: "byte list"
  closes :: nat

text \<open>The caller's variables that the pointers in \<open>oextras\<close> point to, by width.\<close>

record heap =
  mem8 :: "nat \<Rightarrow> 8 word"
  mem16 :: "nat \<Rightarrow> 16 word"
  mem32 :: "nat \<Rightarrow> 32 word"
  mem64 :: "nat \<Rightarrow> 64 word"

text \<open>All the state a receive touches: the connection, the pools and those variables.\<close>

record world =
  sc :: serverConn
  pools :: pools
  heap :: heap

section \<open>Sending\<close>

fun sizeOfExtras_loop :: "iface list \<Rightarrow> 8 word \<Rightarrow> 8 word result" where
  "sizeOfExtras_loop [] l = Returns l"
| "sizeOfExtras_loop (e # es) l =
     (case e of
        U8 _ \<Rightarrow> sizeOfExtras_loop es (l + 1)
      | U16 _ \<Rightarrow> sizeOfExtras_loop es (l + 2)
      | U32 _ \<Rightarrow> sizeOfExtras_loop es (l + 4)
      | U64 _ \<Rightarrow> sizeOfExtras_loop es (l + 8)
      | _ \<Rightarrow> Panics)"

definition sizeOfExtras :: "iface list \<Rightarrow> 8 word result" where
  "sizeOfExtras extras = sizeOfExtras_loop extras 0"

definition put_header :: "header \<Rightarrow> byte list" where
  "put_header h =
     [Magic h, Op h] @ PutUint16 (KeyLen h) @ [ExtraLen h, DataType h] @
     PutUint16 (ResvOrStatus h) @ PutUint32 (BodyLen h) @ PutUint32 (Opaque h) @
     PutUint64 (CAS h)"

text \<open>The bytes of one extras element; \<open>None\<close> is the \<^verbatim>\<open>default\<close> branch.\<close>

definition put_extra :: "iface \<Rightarrow> byte list option" where
  "put_extra e =
     (case e of
        U8 v \<Rightarrow> Some [v]
      | U16 v \<Rightarrow> Some (PutUint16 v)
      | U32 v \<Rightarrow> Some (PutUint32 v)
      | U64 v \<Rightarrow> Some (PutUint64 v)
      | _ \<Rightarrow> None)"

fun write_extras :: "iface list \<Rightarrow> netconn \<Rightarrow> (bool \<times> netconn) result" where
  "write_extras [] c = Returns (True, c)"
| "write_extras (e # es) c =
     (case put_extra e of
        None \<Rightarrow> Panics
      | Some bs \<Rightarrow>
          (case rw_Write bs c of
             (False, c') \<Rightarrow> Returns (False, c')
           | (True, c') \<Rightarrow> write_extras es c'))"

text \<open>
  The writes of \<open>send\<close> after the header is in \<open>hdrBuf\<close>: header, extras, key, value,
  flush.  \<open>False\<close> is the return of \<^verbatim>\<open>wrapError(StatusNetworkError, err)\<close>.
\<close>

definition write_frame :: "byte list \<Rightarrow> msg \<Rightarrow> netconn \<Rightarrow> (bool \<times> netconn) result" where
  "write_frame hb m c =
     (case rw_Write hb c of
        (False, c1) \<Rightarrow> Returns (False, c1)
      | (True, c1) \<Rightarrow>
          (case write_extras (elts (iextras m)) c1 of
             Panics \<Rightarrow> Panics
           | Returns (False, c2) \<Rightarrow> Returns (False, c2)
           | Returns (True, c2) \<Rightarrow>
               (case (if length (key m) > 0 then rw_Write (key m) c2 else (True, c2)) of
                  (False, c3) \<Rightarrow> Returns (False, c3)
                | (True, c3) \<Rightarrow>
                    (case (if length (val m) > 0 then rw_Write (val m) c3 else (True, c3)) of
                       (False, c4) \<Rightarrow> Returns (False, c4)
                     | (True, c4) \<Rightarrow> Returns (rw_Flush c4)))))"

definition send :: "decls \<Rightarrow> msg \<Rightarrow> serverConn \<Rightarrow> (Error option \<times> msg \<times> serverConn) result" where
  "send D m s =
     (case sizeOfExtras (elts (iextras m)) of
        Panics \<Rightarrow> Panics
      | Returns el \<Rightarrow>
          (let kl = (of_nat (length (key m)) :: 16 word);
               h = (header m)\<lparr>Magic := magicSend D, ExtraLen := el, KeyLen := kl,
                     BodyLen := ucast el + ucast kl + of_nat (length (val m)),
                     Opaque := opq s\<rparr>;
               m1 = m\<lparr>header := h\<rparr>;
               s1 = s\<lparr>opq := opq s + 1, hdrBuf := put_header h\<rparr>
           in case conn s1 of
                None \<Rightarrow> Panics
              | Some c \<Rightarrow>
                  if \<not> rw s1 then Panics
                  else
                    (case write_frame (hdrBuf s1) m1 c of
                       Panics \<Rightarrow> Panics
                     | Returns (False, c') \<Rightarrow>
                         Returns (Some (wrapError (StatusNetworkError D)), m1, s1\<lparr>conn := Some c'\<rparr>)
                     | Returns (True, c') \<Rightarrow> Returns (None, m1, s1\<lparr>conn := Some c'\<rparr>))))"

section \<open>Receiving\<close>

definition parse_header :: "byte list \<Rightarrow> header" where
  "parse_header hb =
     \<lparr>Magic = hb ! 0, Op = hb ! 1, KeyLen = be16 (hb ! 2) (hb ! 3), ExtraLen = hb ! 4,
      DataType = hb ! 5, ResvOrStatus = be16 (hb ! 6) (hb ! 7),
      BodyLen = be32 (hb ! 8) (hb ! 9) (hb ! 10) (hb ! 11),
      Opaque = be32 (hb ! 12) (hb ! 13) (hb ! 14) (hb ! 15),
      CAS = be64 (hb ! 16) (hb ! 17) (hb ! 18) (hb ! 19) (hb ! 20) (hb ! 21) (hb ! 22) (hb ! 23)\<rparr>"

definition Uint16_at :: "byte list \<Rightarrow> nat \<Rightarrow> 16 word result" where
  "Uint16_at b i = (case slice_from b i of Panics \<Rightarrow> Panics | Returns t \<Rightarrow> Uint16 t)"

definition Uint32_at :: "byte list \<Rightarrow> nat \<Rightarrow> 32 word result" where
  "Uint32_at b i = (case slice_from b i of Panics \<Rightarrow> Panics | Returns t \<Rightarrow> Uint32 t)"

definition Uint64_at :: "byte list \<Rightarrow> nat \<Rightarrow> 64 word result" where
  "Uint64_at b i = (case slice_from b i of Panics \<Rightarrow> Panics | Returns t \<Rightarrow> Uint64 t)"

text \<open>
  The loop over \<open>oextras\<close>: \<open>eb\<close> is \<^verbatim>\<open>extrasBuf\<close>, \<open>off\<close> is \<^verbatim>\<open>offset\<close>.
  It returns the error, if any, and the variables as written so far.
\<close>

fun recv_extras ::
  "decls \<Rightarrow> iface list \<Rightarrow> byte list \<Rightarrow> nat \<Rightarrow> heap \<Rightarrow> (Error option \<times> heap) result" where
  "recv_extras D [] eb off h = Returns (None, h)"
| "recv_extras D (e # es) eb off h =
     (case e of
        PU8 a \<Rightarrow>
          if off + 1 > length eb then Returns (Some (wrapError (StatusNetworkError D)), h)
          else (case index eb off of
                  Panics \<Rightarrow> Panics
                | Returns v \<Rightarrow> recv_extras D es eb (off + 1) (h\<lparr>mem8 := (mem8 h)(a := v)\<rparr>))
      | PU16 a \<Rightarrow>
          if off + 2 > length eb then Returns (Some (wrapError (StatusNetworkError D)), h)
          else (case Uint16_at eb off of
                  Panics \<Rightarrow> Panics
                | Returns v \<Rightarrow> recv_extras D es eb (off + 2) (h\<lparr>mem16 := (mem16 h)(a := v)\<rparr>))
      | PU32 a \<Rightarrow>
          if off + 4 > length eb then Returns (Some (wrapError (StatusNetworkError D)), h)
          else (case Uint32_at eb off of
                  Panics \<Rightarrow> Panics
                | Returns v \<Rightarrow> recv_extras D es eb (off + 4) (h\<lparr>mem32 := (mem32 h)(a := v)\<rparr>))
      | PU64 a \<Rightarrow>
          if off + 8 > length eb then Returns (Some (wrapError (StatusNetworkError D)), h)
          else (case Uint64_at eb off of
                  Panics \<Rightarrow> Panics
                | Returns v \<Rightarrow> recv_extras D es eb (off + 8) (h\<lparr>mem64 := (mem64 h)(a := v)\<rparr>))
      | _ \<Rightarrow> Returns (Some (wrapError (StatusNetworkError D)), h))"

text \<open>Key and value out of what is left of the body, and the status as the result.\<close>

definition recv_key :: "decls \<Rightarrow> msg \<Rightarrow> byte list \<Rightarrow> heap \<Rightarrow> (Error option \<times> msg \<times> heap) result" where
  "recv_key D m buf h =
     (if length buf < unat (KeyLen (header m))
      then Returns (Some (wrapError (StatusNetworkError D)), m, h)
      else Returns (newError D (ResvOrStatus (header m)),
                    m\<lparr>key := take (unat (KeyLen (header m))) buf,
                      val := drop (unat (KeyLen (header m))) buf\<rparr>, h))"

text \<open>The decoding of the body \<open>buf\<close>, once the header is parsed into \<open>m\<close>.\<close>

definition recv_body :: "decls \<Rightarrow> msg \<Rightarrow> byte list \<Rightarrow> heap \<Rightarrow> (Error option \<times> msg \<times> heap) result" where
  "recv_body D m buf h =
     (if ResvOrStatus (header m) = 0 \<and> ExtraLen (header m) > 0 then
        if length buf < unat (ExtraLen (header m))
        then Returns (Some (wrapError (StatusNetworkError D)), m, h)
        else
          (let extrasBuf = take (unat (ExtraLen (header m))) buf;
               buf' = drop (unat (ExtraLen (header m))) buf
           in case recv_extras D (elts (oextras m)) extrasBuf 0 h of
                Panics \<Rightarrow> Panics
              | Returns (Some e, h') \<Rightarrow> Returns (Some e, m, h')
              | Returns (None, h') \<Rightarrow> recv_key D m buf' h')
      else recv_key D m buf h)"

text \<open>
  \<open>recv\<close>.  \<^verbatim>\<open>int\<close> has 64 bits, so \<^verbatim>\<open>int(m.BodyLen)\<close> is the body length.
  The deferred \<^verbatim>\<open>putBodyBuffer(body)\<close> runs on every return after the buffer is
  acquired.
\<close>

definition recv :: "decls \<Rightarrow> msg \<Rightarrow> world \<Rightarrow> (Error option \<times> msg \<times> world) result" where
  "recv D m w =
     (case conn (sc w) of
        None \<Rightarrow> Panics
      | Some c \<Rightarrow>
          if \<not> rw (sc w) then Panics
          else
            (case ReadFull c 24 of
               (False, got, c1) \<Rightarrow>
                 Returns (Some (wrapError (StatusNetworkError D)), m,
                          w\<lparr>sc := (sc w)\<lparr>conn := Some c1, hdrBuf := fill (hdrBuf (sc w)) got\<rparr>\<rparr>)
             | (True, got, c1) \<Rightarrow>
                 (let s1 = (sc w)\<lparr>conn := Some c1, hdrBuf := fill (hdrBuf (sc w)) got\<rparr>;
                      m1 = m\<lparr>header := parse_header (hdrBuf s1)\<rparr>
                  in case getBodyBuffer (uint (BodyLen (header m1))) (pools w) of
                       Panics \<Rightarrow> Panics
                     | Returns (body, ps1) \<Rightarrow>
                         (case ReadFull c1 (len body) of
                            (False, got2, c2) \<Rightarrow>
                              Returns (Some (wrapError (StatusNetworkError D)), m1,
                                       w\<lparr>sc := s1\<lparr>conn := Some c2\<rparr>,
                                         pools := putBodyBuffer (body\<lparr>elts := fill (elts body) got2\<rparr>) ps1\<rparr>)
                          | (True, got2, c2) \<Rightarrow>
                              (let body2 = body\<lparr>elts := fill (elts body) got2\<rparr>
                               in case recv_body D m1 (elts body2) (heap w) of
                                    Panics \<Rightarrow> Panics
                                  | Returns (err, m2, h2) \<Rightarrow>
                                      Returns (err, m2,
                                               w\<lparr>sc := s1\<lparr>conn := Some c2\<rparr>,
                                                 pools := putBodyBuffer body2 ps1,
                                                 heap := h2\<rparr>))))))"

section \<open>The exchange\<close>

definition resetConn :: "decls \<Rightarrow> Error \<Rightarrow> serverConn \<Rightarrow> serverConn" where
  "resetConn D err s =
     (if Status err = StatusNetworkError D then
        (if conn s \<noteq> None then s\<lparr>conn := None, rw := False, closes := closes s + 1\<rparr> else s)
      else s)"

definition sendRecv :: "decls \<Rightarrow> msg \<Rightarrow> world \<Rightarrow> (Error option \<times> msg \<times> world) result" where
  "sendRecv D m w =
     (case send D m (sc w) of
        Panics \<Rightarrow> Panics
      | Returns (Some err, m1, s1) \<Rightarrow> Returns (Some err, m1, w\<lparr>sc := resetConn D err s1\<rparr>)
      | Returns (None, m1, s1) \<Rightarrow>
          (case recv D m1 (w\<lparr>sc := s1\<rparr>) of
             Panics \<Rightarrow> Panics
           | Returns (Some err, m2, w2) \<Rightarrow>
               Returns (Some err, m2, w2\<lparr>sc := resetConn D err (sc w2)\<rparr>)
           | Returns (None, m2, w2) \<Rightarrow> Returns (None, m2, w2)))"

section \<open>The statistics exchange\<close>

text \<open>
  The bytes that the connection of \<open>w\<close> has still to deliver.
\<close>

definition unread :: "world \<Rightarrow> nat" where
  "unread w = (case conn (sc w) of None \<Rightarrow> 0 | Some c \<Rightarrow> length (rd c))"

text \<open>
  The loop of \<open>sendRecvStats\<close>; \<open>stats\<close> is the map collected so far.  Every receive
  without error consumes a header, so the loop ends when the stream does.
\<close>

function stats_loop ::
  "decls \<Rightarrow> msg \<Rightarrow> world \<Rightarrow> (gostring \<rightharpoonup> gostring) \<Rightarrow>
     ((gostring \<rightharpoonup> gostring) \<times> Error option \<times> msg \<times> world) result" where
  "stats_loop D m w stats =
     (case recv D m w of
        Panics \<Rightarrow> Panics
      | Returns (err, m1, w1) \<Rightarrow>
          if err \<noteq> None \<or> KeyLen (header m1) = 0 then
            (case err of
               Some e \<Rightarrow> Returns (stats, Some e, m1, w1\<lparr>sc := resetConn D e (sc w1)\<rparr>)
             | None \<Rightarrow> Returns (stats, None, m1, w1))
          else stats_loop D m1 w1 (stats(key m1 \<mapsto> val m1)))"
  by pat_completeness auto
termination
proof (relation "measure (\<lambda>(D, m, w, stats). unread w)")
  show "wf (measure (\<lambda>(D, m, w, stats). unread w))"
    by simp
next
  fix D :: decls and m :: msg and w :: world and stats :: "gostring \<rightharpoonup> gostring"
    and x2 err y m1 w1
  assume r: "recv D m w = Returns x2" and x: "(err, y) = x2" and y: "(m1, w1) = y"
    and n: "\<not> (err \<noteq> None \<or> KeyLen (header m1) = 0)"
  from r x y n have rr: "recv D m w = Returns (None, m1, w1)"
    by auto
  then obtain c where c: "conn (sc w) = Some c" and rw: "rw (sc w)"
    by (auto simp add: recv_def split: option.splits if_splits)
  have "24 \<le> length (rd c)"
    using rr c rw by (auto simp add: recv_def ReadFull_def split: if_splits)
  moreover have "\<exists>c'. conn (sc w1) = Some c' \<and> length (rd c') \<le> length (rd c) - 24"
    using rr c rw
    by (auto simp add: recv_def ReadFull_def Let_def split: if_splits result.splits prod.splits)
  ultimately show "((D, m1, w1, stats(key m1 \<mapsto> val m1)), (D, m, w, stats))
      \<in> measure (\<lambda>(D, m, w, stats). unread w)"
    using c by (auto simp add: unread_def)
qed

text \<open>
  \<open>sendRecvStats\<close>.  The map returned is \<open>None\<close> for the nil map that is returned when
  \<open>send\<close> fails.
\<close>

definition sendRecvStats ::
  "decls \<Rightarrow> msg \<Rightarrow> world \<Rightarrow> ((gostring \<rightharpoonup> gostring) option \<times> Error option \<times> msg \<times> world) result" where
  "sendRecvStats D m w =
     (case send D m (sc w) of
        Panics \<Rightarrow> Panics
      | Returns (Some err, m1, s1) \<Rightarrow> Returns (None, Some err, m1, w\<lparr>sc := resetConn D err s1\<rparr>)
      | Returns (None, m1, s1) \<Rightarrow>
          (case stats_loop D m1 (w\<lparr>sc := s1\<rparr>) Map.empty of
             Panics \<Rightarrow> Panics
           | Returns (stats, err, m2, w2) \<Rightarrow> Returns (Some stats, err, m2, w2)))"

section \<open>Connecting and authenticating\<close>

text \<open>
  The zero values of \<^verbatim>\<open>header\<close> and \<^verbatim>\<open>msg\<close>, which the composite literals of the
  source start from.
\<close>

definition zero_header :: header where
  "zero_header =
     \<lparr>Magic = 0, Op = 0, KeyLen = 0, ExtraLen = 0, DataType = 0, ResvOrStatus = 0,
      BodyLen = 0, Opaque = 0, CAS = 0\<rparr>"

definition zero_msg :: msg where
  "zero_msg = \<lparr>header = zero_header, iextras = nil_slice, oextras = nil_slice, key = [], val = []\<rparr>"

text \<open>\<^verbatim>\<open>strings.Contains(s, sub)\<close>, and the mechanism name "PLAIN".\<close>

fun Contains :: "gostring \<Rightarrow> gostring \<Rightarrow> bool" where
  "Contains [] sub = (sub = [])"
| "Contains (x # xs) sub = (take (length sub) (x # xs) = sub \<or> Contains xs sub)"

definition PLAIN :: gostring where
  "PLAIN = [0x50, 0x4C, 0x41, 0x49, 0x4E]"

text \<open>
  \<open>authList\<close> returns the value of the response and the error of the exchange;
  \<open>authPlain\<close> sends the user name and the password, each after a zero byte.
\<close>

definition authList :: "decls \<Rightarrow> world \<Rightarrow> (gostring \<times> Error option \<times> world) result" where
  "authList D w =
     (case sendRecv D (zero_msg\<lparr>header := zero_header\<lparr>Op := opAuthList D\<rparr>\<rparr>) w of
        Panics \<Rightarrow> Panics
      | Returns (err, m', w') \<Rightarrow> Returns (val m', err, w'))"

definition authPlain :: "decls \<Rightarrow> world \<Rightarrow> (Error option \<times> world) result" where
  "authPlain D w =
     (case sendRecv D
             (zero_msg\<lparr>header := zero_header\<lparr>Op := opAuthStart D\<rparr>, key := PLAIN,
                val := 0 # username (sc w) @ 0 # password (sc w)\<rparr>) w of
        Panics \<Rightarrow> Panics
      | Returns (err, m', w') \<Rightarrow> Returns (err, w'))"

definition auth :: "decls \<Rightarrow> world \<Rightarrow> (Error option \<times> world) result" where
  "auth D w =
     (if length (username (sc w)) = 0 \<and> length (password (sc w)) = 0 then Returns (None, w)
      else
        (case authList D w of
           Panics \<Rightarrow> Panics
         | Returns (s, Some err, w1) \<Rightarrow> Returns (Some err, w1)
         | Returns (s, None, w1) \<Rightarrow>
             if Contains s PLAIN then authPlain D w1
             else Returns (Some \<lparr>Status = StatusAuthUnknown D\<rparr>, w1)))"

text \<open>
  \<open>connect\<close>.  \<open>dial\<close> is the outcome of \<^verbatim>\<open>net.DialTimeout\<close>: \<open>None\<close> for an error,
  \<open>Some (c, is_tcp)\<close> for a connection \<open>c\<close>, where \<open>is_tcp\<close> tells whether \<open>c\<close> is a
  \<^verbatim>\<open>*net.TCPConn\<close>.
\<close>

definition connect :: "decls \<Rightarrow> (netconn \<times> bool) option \<Rightarrow> world \<Rightarrow> (Error option \<times> world) result" where
  "connect D dial w =
     (case dial of
        None \<Rightarrow> Returns (Some (wrapError (StatusNetworkError D)), w)
      | Some (c, is_tcp) \<Rightarrow>
          (let w1 = w\<lparr>sc := (sc w)\<lparr>conn := Some c\<rparr>\<rparr>
           in if scheme (sc w1) = ''tcp'' \<and> \<not> is_tcp
              then Returns (Some \<lparr>Status = StatusNetworkError D\<rparr>, w1)
              else
                (let w2 = w1\<lparr>sc := (sc w1)\<lparr>rw := True\<rparr>\<rparr>
                 in case auth D w2 of
                      Panics \<Rightarrow> Panics
                    | Returns (None, w3) \<Rightarrow> Returns (None, w3)
                    | Returns (Some err, w3) \<Rightarrow>
                        if Status err \<noteq> StatusUnknownCommand D then
                          (if conn (sc w3) \<noteq> None
                           then Returns (Some err,
                                  w3\<lparr>sc := (sc w3)\<lparr>conn := None, rw := False,
                                                closes := closes (sc w3) + 1\<rparr>\<rparr>)
                           else Returns (Some err, w3))
                        else Returns (None, w3))))"

section \<open>Notions used to state the properties\<close>

subsection \<open>What is sent\<close>

text \<open>The four dynamic types that the encoder accepts in \<open>iextras\<close>.\<close>

definition is_uint :: "iface \<Rightarrow> bool" where
  "is_uint e = (case e of U8 _ \<Rightarrow> True | U16 _ \<Rightarrow> True | U32 _ \<Rightarrow> True | U64 _ \<Rightarrow> True | _ \<Rightarrow> False)"

text \<open>The extras segment as \<open>send\<close> writes it, and the length of the body it writes.\<close>

definition extra_bytes :: "iface \<Rightarrow> byte list" where
  "extra_bytes e = (case put_extra e of Some bs \<Rightarrow> bs | None \<Rightarrow> [])"

definition extras_bytes :: "iface list \<Rightarrow> byte list" where
  "extras_bytes es = concat (map extra_bytes es)"

definition body_length :: "msg \<Rightarrow> nat" where
  "body_length m = length (extras_bytes (elts (iextras m))) + length (key m) + length (val m)"

text \<open>The header that \<open>send\<close> computes, given the extras length \<open>el\<close> it has computed.\<close>

definition sent_header :: "decls \<Rightarrow> msg \<Rightarrow> serverConn \<Rightarrow> 8 word \<Rightarrow> header" where
  "sent_header D m s el =
     (header m)\<lparr>Magic := magicSend D, ExtraLen := el,
        KeyLen := of_nat (length (key m)),
        BodyLen := ucast el + ucast (of_nat (length (key m)) :: 16 word) + of_nat (length (val m)),
        Opaque := opq s\<rparr>"

text \<open>
  The body length field of the header after \<open>send\<close>, when \<open>send\<close> returns; and the bytes
  that stand on the wire after \<open>send\<close>.
\<close>

definition sent_BodyLen :: "decls \<Rightarrow> msg \<Rightarrow> serverConn \<Rightarrow> nat option" where
  "sent_BodyLen D m s =
     (case send D m s of
        Panics \<Rightarrow> None
      | Returns (_, m', _) \<Rightarrow> Some (unat (BodyLen (header m'))))"

definition sent_bytes :: "decls \<Rightarrow> msg \<Rightarrow> serverConn \<Rightarrow> byte list" where
  "sent_bytes D m s =
     (case send D m s of
        Panics \<Rightarrow> []
      | Returns (_, _, s1) \<Rightarrow> (case conn s1 of None \<Rightarrow> [] | Some c1 \<Rightarrow> wr c1))"

subsection \<open>What is received\<close>

text \<open>
  The four pointer types that the decoder accepts in \<open>oextras\<close>, the width of the variable
  that each points to, and the number of extras bytes that a list of destinations needs.
\<close>

definition is_dest :: "iface \<Rightarrow> bool" where
  "is_dest e = (case e of PU8 _ \<Rightarrow> True | PU16 _ \<Rightarrow> True | PU32 _ \<Rightarrow> True | PU64 _ \<Rightarrow> True | _ \<Rightarrow> False)"

definition dest_width :: "iface \<Rightarrow> nat" where
  "dest_width e = (case e of PU8 _ \<Rightarrow> 1 | PU16 _ \<Rightarrow> 2 | PU32 _ \<Rightarrow> 4 | PU64 _ \<Rightarrow> 8 | _ \<Rightarrow> 0)"

definition extras_needed :: "iface list \<Rightarrow> nat" where
  "extras_needed es = sum_list (map dest_width es)"

text \<open>
  From the offset \<open>off\<close>, the destinations \<open>es\<close> are all of a supported type and fit within
  \<open>n\<close> bytes of extras.
\<close>

definition extras_fit :: "iface list \<Rightarrow> nat \<Rightarrow> nat \<Rightarrow> bool" where
  "extras_fit es off n = (list_all is_dest es \<and> off + extras_needed es \<le> n)"

text \<open>
  Under the header \<open>h\<close>: the bytes of the body that \<open>recv\<close> sets aside as extras; the body
  is too short for the destinations \<open>es\<close> (the status being 0 and the extras length
  positive, the body or the extras segment has fewer bytes than they need); the body is
  too short for the key.
\<close>

definition extras_consumed :: "header \<Rightarrow> nat" where
  "extras_consumed h = (if ResvOrStatus h = 0 \<and> ExtraLen h > 0 then unat (ExtraLen h) else 0)"

definition short_for_extras :: "header \<Rightarrow> iface list \<Rightarrow> byte list \<Rightarrow> bool" where
  "short_for_extras h es body =
     (ResvOrStatus h = 0 \<and> ExtraLen h > 0 \<and> min (length body) (unat (ExtraLen h)) < extras_needed es)"

definition short_for_key :: "header \<Rightarrow> byte list \<Rightarrow> bool" where
  "short_for_key h body = (length body < extras_consumed h + unat (KeyLen h))"

text \<open>
  The value of the variable that a destination points to; and \<open>p\<close> is a destination for
  the value \<open>v\<close>, a pointer to a variable of the type of \<open>v\<close>.
\<close>

definition deref :: "heap \<Rightarrow> iface \<Rightarrow> iface" where
  "deref h p =
     (case p of
        PU8 a \<Rightarrow> U8 (mem8 h a)
      | PU16 a \<Rightarrow> U16 (mem16 h a)
      | PU32 a \<Rightarrow> U32 (mem32 h a)
      | PU64 a \<Rightarrow> U64 (mem64 h a)
      | _ \<Rightarrow> NilIface)"

definition dest_for :: "iface \<Rightarrow> iface \<Rightarrow> bool" where
  "dest_for v p =
     (case v of
        U8 _ \<Rightarrow> (case p of PU8 _ \<Rightarrow> True | _ \<Rightarrow> False)
      | U16 _ \<Rightarrow> (case p of PU16 _ \<Rightarrow> True | _ \<Rightarrow> False)
      | U32 _ \<Rightarrow> (case p of PU32 _ \<Rightarrow> True | _ \<Rightarrow> False)
      | U64 _ \<Rightarrow> (case p of PU64 _ \<Rightarrow> True | _ \<Rightarrow> False)
      | _ \<Rightarrow> False)"

text \<open>What a receive leaves in the message: the error, the key and the value.\<close>

definition received :: "(Error option \<times> msg \<times> world) result \<Rightarrow> (Error option \<times> gostring \<times> gostring) option" where
  "received r = (case r of Panics \<Rightarrow> None | Returns (err, m, _) \<Rightarrow> Some (err, key m, val m))"

subsection \<open>Responses\<close>

text \<open>
  A response of status 0 as the server sends it: extras \<open>x\<close>, key \<open>k\<close> and value \<open>v\<close>
  after a header whose length fields are theirs; the other header fields are those of
  \<open>h\<close>.  It is well formed when the lengths fit their fields.
\<close>

type_synonym resp = "header \<times> byte list \<times> gostring \<times> gostring"

definition resp_header :: "resp \<Rightarrow> header" where
  "resp_header r =
     (case r of (h, x, k, v) \<Rightarrow>
        h\<lparr>ResvOrStatus := 0, ExtraLen := of_nat (length x), KeyLen := of_nat (length k),
          BodyLen := of_nat (length x + length k + length v)\<rparr>)"

definition resp_key :: "resp \<Rightarrow> gostring" where
  "resp_key r = (case r of (h, x, k, v) \<Rightarrow> k)"

definition resp_val :: "resp \<Rightarrow> gostring" where
  "resp_val r = (case r of (h, x, k, v) \<Rightarrow> v)"

definition response :: "resp \<Rightarrow> byte list" where
  "response r = (case r of (h, x, k, v) \<Rightarrow> put_header (resp_header r) @ x @ k @ v)"

definition wf_resp :: "resp \<Rightarrow> bool" where
  "wf_resp r =
     (case r of (h, x, k, v) \<Rightarrow>
        length x \<le> 255 \<and> length k \<le> 65535 \<and> length x + length k + length v < 2 ^ 32)"

text \<open>The map after the pairs of the responses \<open>rs\<close> are stored, in order, into \<open>stats\<close>.\<close>

definition collect :: "resp list \<Rightarrow> (gostring \<rightharpoonup> gostring) \<Rightarrow> (gostring \<rightharpoonup> gostring)" where
  "collect rs stats = foldl (\<lambda>st r. st(resp_key r \<mapsto> resp_val r)) stats rs"

subsection \<open>The connection after an exchange\<close>

text \<open>The state in which \<open>connect\<close> starts the authentication.\<close>

definition dialled :: "netconn \<Rightarrow> world \<Rightarrow> world" where
  "dialled c w = w\<lparr>sc := (sc w)\<lparr>conn := Some c, rw := True\<rparr>\<rparr>"

text \<open>
  After an exchange the connection is either closed (once more than before, which happens
  on an error of status \<open>StatusNetworkError\<close> only) or open as before.
\<close>

definition torn_down :: "decls \<Rightarrow> Error option \<Rightarrow> world \<Rightarrow> world \<Rightarrow> bool" where
  "torn_down D r w w' =
     (conn (sc w') = None \<and> \<not> rw (sc w') \<and> closes (sc w') = closes (sc w) + 1 \<and>
      (\<exists>e. r = Some e \<and> Status e = StatusNetworkError D))"

definition still_open :: "world \<Rightarrow> world \<Rightarrow> bool" where
  "still_open w w' = (conn (sc w') \<noteq> None \<and> rw (sc w') \<and> closes (sc w') = closes (sc w))"

section \<open>Concrete values for the examples\<close>

text \<open>
  A choice of values for the package's constants, with \<^verbatim>\<open>newError\<close> returning nil
  for status 0 and an error of that status otherwise.
\<close>

definition example_decls :: decls where
  "example_decls =
     \<lparr>magicSend = 0x80, opAuthList = 0x20, opAuthStart = 0x21,
      StatusNetworkError = 0xFFF7, StatusUnknownCommand = 0x81, StatusAuthUnknown = 0xFFFF,
      newError = (\<lambda>st. if st = 0 then None else Some \<lparr>Status = st\<rparr>)\<rparr>"

text \<open>A slice literal: as long as its array.\<close>

definition lit :: "'a list \<Rightarrow> 'a slice" where
  "lit xs = \<lparr>elts = xs, room = []\<rparr>"

text \<open>
  An established connection on which the peer delivers \<open>input\<close> and no write fails; the
  connection that a dial gives; all variables zero; and the state around a connection,
  with empty pools.
\<close>

definition open_conn :: "byte list \<Rightarrow> serverConn" where
  "open_conn input =
     \<lparr>scheme = ''tcp'', username = [], password = [],
      conn = Some \<lparr>rd = input, wr = [], wfail = None\<rparr>, rw = True, opq = 0,
      backupSlot = zero_msg, hdrBuf = replicate 24 0, closes = 0\<rparr>"

definition peer :: "byte list \<Rightarrow> netconn" where
  "peer input = \<lparr>rd = input, wr = [], wfail = None\<rparr>"

definition zero_heap :: heap where
  "zero_heap = \<lparr>mem8 = (\<lambda>_. 0), mem16 = (\<lambda>_. 0), mem32 = (\<lambda>_. 0), mem64 = (\<lambda>_. 0)\<rparr>"

definition world_of :: "serverConn \<Rightarrow> world" where
  "world_of s = \<lparr>sc = s, pools = empty_pools, heap = zero_heap\<rparr>"

text \<open>
  The request of the package's test of \<open>send\<close>, a set of "foo" to "bar" with two 32-bit
  extras; and a message to receive it into, with two 32-bit destinations.
\<close>

definition set_msg :: msg where
  "set_msg =
     zero_msg\<lparr>header := zero_header\<lparr>Op := 1\<rparr>,
       iextras := lit [U32 0xdeadbeef, U32 3600],
       key := [0x66, 0x6F, 0x6F], val := [0x62, 0x61, 0x72]\<rparr>"

definition two_dests_msg :: msg where
  "two_dests_msg = zero_msg\<lparr>oextras := lit [PU32 0, PU32 1]\<rparr>"

text \<open>A request with an extras element of type \<^verbatim>\<open>int\<close>.\<close>

definition int_extra_msg :: msg where
  "int_extra_msg = zero_msg\<lparr>iextras := lit [Other ''int''], key := [0x6B]\<rparr>"

text \<open>
  A request with 32 extras of 64 bits, 256 bytes of extras in all, and the key "k"; and a
  message to receive it into, with 32 destinations of 64 bits.
\<close>

definition wide_msg :: msg where
  "wide_msg = zero_msg\<lparr>iextras := lit (replicate 32 (U64 0)), key := [0x6B]\<rparr>"

definition wide_dests_msg :: msg where
  "wide_dests_msg = zero_msg\<lparr>oextras := lit (map PU64 [0..<32])\<rparr>"

text \<open>A request with a key of 65536 bytes, and one with a value of \<open>2\<^sup>3\<^sup>2\<close> bytes.\<close>

definition long_key_msg :: msg where
  "long_key_msg = zero_msg\<lparr>key := replicate 65536 0x6B\<rparr>"

definition huge_val_msg :: msg where
  "huge_val_msg = zero_msg\<lparr>val := replicate 4294967296 0x76\<rparr>"

text \<open>A request whose reserved field is 1, with one 8-bit extra; and its destination.\<close>

definition resv_msg :: msg where
  "resv_msg =
     zero_msg\<lparr>header := zero_header\<lparr>ResvOrStatus := 1\<rparr>, iextras := lit [U8 7], key := [0x6B]\<rparr>"

definition one_dest_msg :: msg where
  "one_dest_msg = zero_msg\<lparr>oextras := lit [PU8 0]\<rparr>"

text \<open>
  The header of a response that declares four bytes of extras and a body of two bytes,
  and a message with one 32-bit destination to receive it into.
\<close>

definition short_header :: header where
  "short_header = zero_header\<lparr>Magic := 0x81, ExtraLen := 4, BodyLen := 2\<rparr>"

definition flags_msg :: msg where
  "flags_msg = zero_msg\<lparr>oextras := lit [PU32 0]\<rparr>"

text \<open>
  The header of a response without body and with status 1 (key not found), and the
  header of such a response with status \<open>st\<close>.
\<close>

definition not_found_header :: header where
  "not_found_header = zero_header\<lparr>Magic := 0x81, ResvOrStatus := 1\<rparr>"

definition status_header :: "16 word \<Rightarrow> header" where
  "status_header st = zero_header\<lparr>Magic := 0x81, ResvOrStatus := st\<rparr>"

text \<open>A statistics response "pid" = "1", and the terminating response.\<close>

definition stat_pid :: resp where
  "stat_pid = (zero_header\<lparr>Magic := 0x81, Op := 0x10\<rparr>, [], [0x70, 0x69, 0x64], [0x31])"

definition stat_end :: resp where
  "stat_end = (zero_header\<lparr>Magic := 0x81, Op := 0x10\<rparr>, [], [], [])"

text \<open>A disconnected connection with user name "u" and password "p".\<close>

definition cred_world :: world where
  "cred_world =
     world_of ((open_conn [])\<lparr>username := [0x75], password := [0x70], conn := None, rw := False\<rparr>)"

text \<open>
  The same constants with a \<^verbatim>\<open>newError\<close> that builds no error of status
  \<open>StatusNetworkError\<close>: the status of that value gets the error of status \<open>0xFFFF\<close>.
\<close>

definition strict_decls :: decls where
  "strict_decls =
     example_decls\<lparr>newError :=
       (\<lambda>st. if st = 0 then None
             else if st = 0xFFF7 then Some \<lparr>Status = 0xFFFF\<rparr> else Some \<lparr>Status = st\<rparr>)\<rparr>"

text \<open>An established connection on which every write fails.\<close>

definition stalled_conn :: serverConn where
  "stalled_conn = (open_conn [])\<lparr>conn := Some \<lparr>rd = [], wr = [], wfail = Some 0\<rparr>\<rparr>"



section \<open>Properties of the pools\<close>

lemma backing_mk: "backing \<lparr>elts = a, room = b\<rparr> = a @ b"
  by (simp add: backing_def)

lemma len_mk: "len \<lparr>elts = a, room = b\<rparr> = length a"
  by (simp add: len_def)

lemma cap_backing: "cap s = length (backing s)"
  by (simp add: cap_def backing_def)

lemma backing_reslice: "backing (reslice s n) = backing s"
  by (simp add: reslice_def backing_mk)

lemma cap_reslice: "cap (reslice s n) = cap s"
  by (simp add: cap_backing backing_reslice)

lemma len_reslice: "n \<le> cap s \<Longrightarrow> len (reslice s n) = n"
  by (simp add: reslice_def len_mk cap_backing)


lemma cap_make_slice: "cap (make_slice z n) = n"
  by (simp add: cap_def make_slice_def)

lemma len_make_slice: "len (make_slice z n) = n"
  by (simp add: len_def make_slice_def)

lemma pools_ok_empty: "pools_ok empty_pools"
  by (simp add: pools_ok_def empty_pools_def)

lemma pools_ok_put: "pools_ok ps \<Longrightarrow> pools_ok (putBodyBuffer buf ps)"
  by (simp add: pools_ok_def putBodyBuffer_def Let_def cap_reslice)

lemma pool_Get_cap:
  "list_all (\<lambda>b. cap b = n) p \<Longrightarrow> pool_Get n pick p = (b, q) \<Longrightarrow>
     cap b = n \<and> list_all (\<lambda>b. cap b = n) q"
  by (auto simp add: pool_Get_def cap_make_slice list_all_iff split: option.splits if_splits)
    (blast dest: in_set_takeD in_set_dropD)+

lemma next_pick_eq:
  "next_pick ps = (case picks ps of [] \<Rightarrow> None | x # xs \<Rightarrow> x, ps\<lparr>picks := tl (picks ps)\<rparr>)"
  by (cases "picks ps") (simp_all add: next_pick_def)

lemma getBodyBuffer_ok:
  assumes "pools_ok ps" and "0 \<le> sz"
  shows "\<exists>b ps'. getBodyBuffer sz ps = Returns (b, ps') \<and> len b = nat sz \<and> pools_ok ps'
           \<and> (sz \<le> 256 \<longrightarrow> cap b = 256)
           \<and> (256 < sz \<and> sz \<le> 4096 \<longrightarrow> cap b = 4096)
           \<and> (4096 < sz \<and> sz \<le> 65536 \<longrightarrow> cap b = 65536)
           \<and> (65536 < sz \<longrightarrow> cap b = nat sz \<and> ps' = ps)"
proof -
  let ?pick = "case picks ps of [] \<Rightarrow> None | x # xs \<Rightarrow> x"
  consider "sz \<le> 256" | "256 < sz" "sz \<le> 4096" | "4096 < sz" "sz \<le> 65536" | "65536 < sz"
    by linarith
  then show ?thesis
  proof cases
    case 1
    obtain b q where g: "pool_Get 256 ?pick (smallBodyPool ps) = (b, q)"
      by (cases "pool_Get 256 ?pick (smallBodyPool ps)") auto
    from assms(1) have "list_all (\<lambda>b. cap b = 256) (smallBodyPool ps)"
      by (simp add: pools_ok_def)
    from pool_Get_cap [OF this g] have c: "cap b = 256" "list_all (\<lambda>b. cap b = 256) q"
      by simp_all
    with 1 assms g show ?thesis
      by (simp add: getBodyBuffer_def next_pick_eq slice_to_def len_reslice cap_reslice
          pools_ok_def)
  next
    case 2
    obtain b q where g: "pool_Get 4096 ?pick (mediumBodyPool ps) = (b, q)"
      by (cases "pool_Get 4096 ?pick (mediumBodyPool ps)") auto
    from assms(1) have "list_all (\<lambda>b. cap b = 4096) (mediumBodyPool ps)"
      by (simp add: pools_ok_def)
    from pool_Get_cap [OF this g] have c: "cap b = 4096" "list_all (\<lambda>b. cap b = 4096) q"
      by simp_all
    with 2 assms g show ?thesis
      by (simp add: getBodyBuffer_def next_pick_eq slice_to_def len_reslice cap_reslice
          pools_ok_def)
  next
    case 3
    obtain b q where g: "pool_Get 65536 ?pick (largeBodyPool ps) = (b, q)"
      by (cases "pool_Get 65536 ?pick (largeBodyPool ps)") auto
    from assms(1) have "list_all (\<lambda>b. cap b = 65536) (largeBodyPool ps)"
      by (simp add: pools_ok_def)
    from pool_Get_cap [OF this g] have c: "cap b = 65536" "list_all (\<lambda>b. cap b = 65536) q"
      by simp_all
    with 3 assms g show ?thesis
      by (simp add: getBodyBuffer_def next_pick_eq slice_to_def len_reslice cap_reslice
          pools_ok_def)
  next
    case 4
    with assms show ?thesis
      by (simp add: getBodyBuffer_def len_make_slice cap_make_slice)
  qed
qed











section \<open>Properties of snapshot and restore\<close>

lemma elts_copy_same_len: "len d = len src \<Longrightarrow> elts (copy_slice d src) = elts src"
  by (simp add: copy_slice_def len_def)

lemma elts_copy_reslice:
  "len src \<le> cap d \<Longrightarrow> elts (copy_slice (reslice d (len src)) src) = elts src"
  by (simp add: elts_copy_same_len len_reslice)

lemma elts_copy_make: "elts (copy_slice (make_slice z (len src)) src) = elts src"
  by (simp add: elts_copy_same_len len_make_slice)

lemma elts_append_slice: "elts (append_slice z s v) = elts s @ [v]"
  by (simp add: append_slice_def split: list.splits)

lemma elts_append_all: "elts (append_all s vs) = elts s @ vs"
  unfolding append_all_def
  by (induction vs arbitrary: s) (simp_all add: elts_append_slice)

lemma elts_append_all_nil: "elts (append_all nil_slice vs) = vs"
  by (simp add: elts_append_all nil_slice_def)

lemma copy_header_fields_eq: "copy_header_fields dst src = src"
  by (simp add: copy_header_fields_def)

lemma backupMsg_fields:
  "header (backupMsg m b) = header m" "key (backupMsg m b) = key m" "val (backupMsg m b) = val m"
  "elts (iextras (backupMsg m b)) = elts (iextras m)"
  "elts (oextras (backupMsg m b)) = elts (oextras m)"
  by (simp_all add: backupMsg_def Let_def elts_copy_reslice elts_copy_make)

lemma restoreMsg_fields:
  "header (restoreMsg m b) = header b" "key (restoreMsg m b) = key b" "val (restoreMsg m b) = val b"
  "elts (iextras (restoreMsg m b)) = elts (iextras b)"
  "elts (oextras (restoreMsg m b)) = elts (oextras b)"
  by (simp_all add: restoreMsg_def Let_def elts_copy_reslice elts_copy_make)

lemma backupMsg_orig_fields:
  "header (backupMsg_orig m b) = header m" "key (backupMsg_orig m b) = key m"
  "val (backupMsg_orig m b) = val m"
  "elts (iextras (backupMsg_orig m b)) = elts (iextras m)"
  "elts (oextras (backupMsg_orig m b)) = elts (oextras m)"
  by (simp_all add: backupMsg_orig_def Let_def elts_append_all_nil copy_header_fields_eq)

lemma restoreMsg_orig_fields:
  "header (restoreMsg_orig m b) = header b" "key (restoreMsg_orig m b) = key b"
  "val (restoreMsg_orig m b) = val b"
  "elts (iextras (restoreMsg_orig m b)) = elts (iextras b)"
  "elts (oextras (restoreMsg_orig m b)) = elts (oextras b)"
  by (simp_all add: restoreMsg_orig_def Let_def elts_append_all_nil copy_header_fields_eq)

text \<open>
  C5.  Take a snapshot of \<open>m\<close> into any slot \<open>b\<close>; let the message then be any
  message \<open>m'\<close> whatever (header, key, value and both extras slices overwritten);
  restoring \<open>m'\<close> from the snapshot gives back the header, the key, the value, the
  \<open>iextras\<close> values and the \<open>oextras\<close> destinations that \<open>m\<close> had when the snapshot
  was taken.
\<close>

theorem restore_after_backup:
  "header (restoreMsg m' (backupMsg m b)) = header m \<and>
   key (restoreMsg m' (backupMsg m b)) = key m \<and>
   val (restoreMsg m' (backupMsg m b)) = val m \<and>
   elts (iextras (restoreMsg m' (backupMsg m b))) = elts (iextras m) \<and>
   elts (oextras (restoreMsg m' (backupMsg m b))) = elts (oextras m)"
  by (simp add: restoreMsg_fields backupMsg_fields)

text \<open>
  C10.  The snapshot and restore functions of \<^verbatim>\<open>server_conn.go\<close> and those of the
  earlier version leave the same key, value, header, \<open>iextras\<close> contents and \<open>oextras\<close>
  contents in the slot (after a snapshot) and in the message (after a restore), from
  every message and every slot.
\<close>

theorem backup_restore_refines_orig:
  "key (backupMsg m b) = key (backupMsg_orig m b) \<and>
   val (backupMsg m b) = val (backupMsg_orig m b) \<and>
   header (backupMsg m b) = header (backupMsg_orig m b) \<and>
   elts (iextras (backupMsg m b)) = elts (iextras (backupMsg_orig m b)) \<and>
   elts (oextras (backupMsg m b)) = elts (oextras (backupMsg_orig m b)) \<and>
   key (restoreMsg m b) = key (restoreMsg_orig m b) \<and>
   val (restoreMsg m b) = val (restoreMsg_orig m b) \<and>
   header (restoreMsg m b) = header (restoreMsg_orig m b) \<and>
   elts (iextras (restoreMsg m b)) = elts (iextras (restoreMsg_orig m b)) \<and>
   elts (oextras (restoreMsg m b)) = elts (oextras (restoreMsg_orig m b))"
  by (simp add: backupMsg_fields backupMsg_orig_fields restoreMsg_fields restoreMsg_orig_fields)

section \<open>Properties of sending\<close>

lemma is_uint_cases: "is_uint e \<Longrightarrow> (\<exists>v. e = U8 v) \<or> (\<exists>v. e = U16 v) \<or> (\<exists>v. e = U32 v) \<or> (\<exists>v. e = U64 v)"
  by (cases e) (simp_all add: is_uint_def)

lemma put_extra_None: "put_extra e = None \<longleftrightarrow> \<not> is_uint e"
  by (cases e) (simp_all add: is_uint_def put_extra_def)

lemma sizeOfExtras_loop_ok:
  "list_all is_uint es \<Longrightarrow> sizeOfExtras_loop es l = Returns (l + of_nat (length (extras_bytes es)))"
proof (induction es arbitrary: l)
  case Nil
  then show ?case by (simp add: extras_bytes_def)
next
  case (Cons e es)
  then have u: "is_uint e" and r: "list_all is_uint es" by simp_all
  from is_uint_cases [OF u] show ?case
    by (auto simp add: Cons.IH [OF r] extras_bytes_def extra_bytes_def put_extra_def
        PutUint16_def PutUint32_def PutUint64_def)
qed

lemma sizeOfExtras_loop_panics:
  "\<not> list_all is_uint es \<Longrightarrow> sizeOfExtras_loop es l = Panics"
proof (induction es arbitrary: l)
  case Nil
  then show ?case by simp
next
  case (Cons e es)
  show ?case
  proof (cases "is_uint e")
    case True
    with Cons.prems have "\<not> list_all is_uint es" by simp
    from Cons.IH [OF this] is_uint_cases [OF True] show ?thesis by auto
  next
    case False
    then show ?thesis by (cases e) (simp_all add: is_uint_def)
  qed
qed

lemma send_panics: "\<not> list_all is_uint (elts (iextras m)) \<Longrightarrow> send D m s = Panics"
  by (simp add: send_def sizeOfExtras_def sizeOfExtras_loop_panics)


lemma rw_Write_nofail: "wfail c = None \<Longrightarrow> rw_Write bs c = (True, c\<lparr>wr := wr c @ bs\<rparr>)"
  by (simp add: rw_Write_def)

lemma rw_Flush_nofail: "wfail c = None \<Longrightarrow> rw_Flush c = (True, c)"
  by (simp add: rw_Flush_def)

lemma write_extras_nofail:
  "list_all is_uint es \<Longrightarrow> wfail c = None \<Longrightarrow>
     write_extras es c = Returns (True, c\<lparr>wr := wr c @ extras_bytes es\<rparr>)"
proof (induction es arbitrary: c)
  case Nil
  then show ?case by (simp add: extras_bytes_def)
next
  case (Cons e es)
  then have u: "is_uint e" and r: "list_all is_uint es" by simp_all
  from u obtain bs where bs: "put_extra e = Some bs"
    using put_extra_None [of e] by (cases "put_extra e") auto
  have w: "wfail (c\<lparr>wr := wr c @ bs\<rparr>) = None"
    using Cons.prems by simp
  show ?case
    by (simp add: bs rw_Write_nofail [OF Cons.prems(2)] Cons.IH [OF r w]
        extras_bytes_def extra_bytes_def)
qed

lemma write_frame_nofail:
  assumes "list_all is_uint (elts (iextras m))" and "wfail c = None"
  shows "write_frame hb m c =
     Returns (True, c\<lparr>wr := wr c @ hb @ extras_bytes (elts (iextras m)) @ key m @ val m\<rparr>)"
  using assms
  by (simp add: write_frame_def rw_Write_nofail write_extras_nofail rw_Flush_nofail)

lemma send_Returns:
  assumes "send D m s = Returns (err, m', s')"
  shows "list_all is_uint (elts (iextras m)) \<and>
         m' = m\<lparr>header := sent_header D m s (of_nat (length (extras_bytes (elts (iextras m)))))\<rparr> \<and>
         hdrBuf s' = put_header (header m') \<and> opq s' = opq s + 1 \<and> rw s' = rw s \<and>
         closes s' = closes s \<and> conn s \<noteq> None \<and> conn s' \<noteq> None \<and> rw s \<and>
         (case err of None \<Rightarrow> True | Some e \<Rightarrow> Status e = StatusNetworkError D)"
proof -
  have u: "list_all is_uint (elts (iextras m))"
    using assms send_panics [of m D s] by auto
  from u assms show ?thesis
    by (auto simp add: send_def sizeOfExtras_def sizeOfExtras_loop_ok Let_def sent_header_def
        wrapError_def split: option.splits if_splits result.splits bool.splits)
qed

lemma unat_lengths:
  assumes "(a::nat) \<le> 255" "(k::nat) \<le> 65535" "a + k + v < 2 ^ 32"
  shows "unat (of_nat a :: 8 word) = a" "unat (of_nat k :: 16 word) = k"
    "unat (ucast (of_nat a :: 8 word) + ucast (of_nat k :: 16 word) + (of_nat v :: 32 word)) = a + k + v"
proof -
  show a: "unat (of_nat a :: 8 word) = a"
    using assms(1) by (simp add: unat_of_nat)
  show k: "unat (of_nat k :: 16 word) = k"
    using assms(2) by (simp add: unat_of_nat)
  have ua: "unat (ucast (of_nat a :: 8 word) :: 32 word) = a"
    using a assms(1) by (simp add: unsigned_ucast_eq take_bit_eq_mod)
  have uk: "unat (ucast (of_nat k :: 16 word) :: 32 word) = k"
    using k assms(2) by (simp add: unsigned_ucast_eq take_bit_eq_mod)
  have uv: "unat (of_nat v :: 32 word) = v"
    using assms(3) by (simp add: unat_of_nat)
  show "unat (ucast (of_nat a :: 8 word) + ucast (of_nat k :: 16 word) + (of_nat v :: 32 word)) = a + k + v"
    using assms(3) by (simp add: unat_word_ariths ua uk uv)
qed


lemma send_nofail:
  assumes "list_all is_uint (elts (iextras m))" and "conn s = Some c" and "wfail c = None" and "rw s"
  shows "send D m s =
     Returns (None,
       m\<lparr>header := sent_header D m s (of_nat (length (extras_bytes (elts (iextras m)))))\<rparr>,
       s\<lparr>opq := opq s + 1,
         hdrBuf := put_header (sent_header D m s (of_nat (length (extras_bytes (elts (iextras m)))))),
         conn := Some (c\<lparr>wr := wr c @
            put_header (sent_header D m s (of_nat (length (extras_bytes (elts (iextras m)))))) @
            extras_bytes (elts (iextras m)) @ key m @ val m\<rparr>)\<rparr>)"
  using assms
  by (simp add: send_def sizeOfExtras_def sizeOfExtras_loop_ok Let_def sent_header_def
      write_frame_nofail)

text \<open>
  C2 (as the code has it).  A message with an element of \<open>iextras\<close> whose dynamic type is
  not one of the four unsigned integer types makes \<open>send\<close> panic (in \<open>sizeOfExtras\<close>,
  which \<open>send\<close> calls before it writes): no error value is returned to the caller.
\<close>

theorem send_unsupported_extra_panics:
  "\<not> list_all is_uint (elts (iextras m)) \<Longrightarrow> send D m s = Panics"
  by (rule send_panics)

text \<open>C2 at a concrete input: a request with an extras element of type \<^verbatim>\<open>int\<close>.\<close>

theorem send_unsupported_extra_panics_witness:
  "\<not> list_all is_uint (elts (iextras int_extra_msg)) \<and>
   send example_decls int_extra_msg (open_conn []) = Panics"
proof -
  have h: "\<not> list_all is_uint (elts (iextras int_extra_msg))"
    by (simp add: int_extra_msg_def lit_def is_uint_def)
  from send_unsupported_extra_panics [OF h] h show ?thesis
    by simp
qed

text \<open>
  C2 as stated fails: on a request with an extras element of type \<^verbatim>\<open>int\<close>, \<open>send\<close>
  does not return an error, it does not return.
\<close>

theorem send_int_extra_returns_no_error:
  "send example_decls int_extra_msg (open_conn []) = Panics"
  by (simp add: send_def sizeOfExtras_def int_extra_msg_def lit_def)

lemma put_header_BodyLen: "take 4 (drop 8 (put_header h)) = PutUint32 (BodyLen h)"
  by (simp add: put_header_def PutUint16_def PutUint32_def)

text \<open>
  C3 (as the code has it).  When the extras segment is at most 255 bytes, the key at most
  65535 bytes, and extras, key and value together less than \<open>2\<^sup>3\<^sup>2\<close> bytes, then
  whenever \<open>send\<close> returns, with or without a write error, the header it has computed
  and put into \<open>hdrBuf\<close> has a body length equal to the extras length plus the key length
  plus the length of the value, these being the actual lengths of the three segments.
\<close>

theorem send_BodyLen:
  assumes "send D m s = Returns (err, m', s')"
    and "length (extras_bytes (elts (iextras m))) \<le> 255"
    and "length (key m) \<le> 65535"
    and "body_length m < 2 ^ 32"
  shows "unat (BodyLen (header m')) = body_length m \<and>
         unat (ExtraLen (header m')) = length (extras_bytes (elts (iextras m))) \<and>
         unat (KeyLen (header m')) = length (key m) \<and>
         key m' = key m \<and> val m' = val m \<and> iextras m' = iextras m \<and>
         hdrBuf s' = put_header (header m') \<and>
         take 4 (drop 8 (hdrBuf s')) = PutUint32 (BodyLen (header m'))"
proof -
  from send_Returns [OF assms(1)] have
    m': "m' = m\<lparr>header := sent_header D m s (of_nat (length (extras_bytes (elts (iextras m)))))\<rparr>"
    and hb: "hdrBuf s' = put_header (header m')"
    by simp_all
  from assms(4) have b: "length (extras_bytes (elts (iextras m))) + length (key m) + length (val m) < 2 ^ 32"
    by (simp add: body_length_def)
  note u = unat_lengths [OF assms(2) assms(3) b]
  show ?thesis
    by (simp add: m' hb [unfolded m'] sent_header_def u body_length_def put_header_BodyLen)
qed

lemma extras_bytes_set_msg: "extras_bytes (elts (iextras set_msg)) = [0xde, 0xad, 0xbe, 0xef, 0, 0, 0x0e, 0x10]"
  by (simp add: set_msg_def lit_def extras_bytes_def extra_bytes_def put_extra_def PutUint32_def)

text \<open>C3 at a concrete input: the request of the package's test, with a body of 14 bytes.\<close>

theorem send_BodyLen_witness:
  "\<exists>err m' s'. send example_decls set_msg (open_conn []) = Returns (err, m', s') \<and>
     body_length set_msg = 14 \<and> unat (BodyLen (header m')) = 14 \<and>
     unat (ExtraLen (header m')) = 8 \<and> unat (KeyLen (header m')) = 3"
proof -
  have u: "list_all is_uint (elts (iextras set_msg))"
    by (simp add: set_msg_def lit_def is_uint_def)
  have c: "conn (open_conn []) = Some \<lparr>rd = [], wr = [], wfail = None\<rparr>" and r: "rw (open_conn [])"
    by (simp_all add: open_conn_def)
  note s = send_nofail [OF u c _ r, of example_decls, simplified]
  have e: "length (extras_bytes (elts (iextras set_msg))) \<le> 255"
    by (simp add: extras_bytes_set_msg)
  have k: "length (key set_msg) \<le> 65535"
    by (simp add: set_msg_def zero_msg_def)
  have bl: "body_length set_msg = 14"
    by (simp add: body_length_def extras_bytes_set_msg) (simp add: set_msg_def zero_msg_def)
  then have b: "body_length set_msg < 2 ^ 32"
    by simp
  from send_BodyLen [OF s e k b] bl s show ?thesis
    by (simp add: extras_bytes_set_msg) (simp add: set_msg_def zero_msg_def)
qed

lemma extras_bytes_wide: "length (extras_bytes (elts (iextras wide_msg))) = 256"
  by (simp add: wide_msg_def lit_def extras_bytes_def extra_bytes_def put_extra_def PutUint64_def
      length_concat sum_list_replicate)

text \<open>
  C3 as stated fails where a length does not fit its header field: with 256 bytes of
  extras (the extras length is 8 bits wide and wraps to 0), with a key of 65536 bytes (the
  key length is 16 bits wide) and with a value of \<open>2\<^sup>3\<^sup>2\<close> bytes, the body length
  field differs from the length of what \<open>send\<close> writes after the header.
\<close>

theorem send_BodyLen_counterexample:
  "sent_BodyLen example_decls wide_msg (open_conn []) = Some 1 \<and> body_length wide_msg = 257 \<and>
   sent_BodyLen example_decls long_key_msg (open_conn []) = Some 0 \<and>
   body_length long_key_msg = 65536 \<and>
   sent_BodyLen example_decls huge_val_msg (open_conn []) = Some 0 \<and>
   body_length huge_val_msg = 4294967296"
proof -
  have c: "conn (open_conn []) = Some \<lparr>rd = [], wr = [], wfail = None\<rparr>" and r: "rw (open_conn [])"
    by (simp_all add: open_conn_def)
  have u: "list_all is_uint (elts (iextras wide_msg))"
    by (simp add: wide_msg_def lit_def is_uint_def list_all_iff)
  note s = send_nofail [OF u c _ r, of example_decls, simplified]
  have w1: "sent_BodyLen example_decls wide_msg (open_conn []) = Some 1"
    by (simp add: sent_BodyLen_def s extras_bytes_wide sent_header_def)
       (simp add: wide_msg_def zero_msg_def)
  have w2: "body_length wide_msg = 257"
    by (simp add: body_length_def extras_bytes_wide) (simp add: wide_msg_def zero_msg_def)
  have e: "elts (iextras long_key_msg) = []" "elts (iextras huge_val_msg) = []"
    by (simp_all add: long_key_msg_def huge_val_msg_def zero_msg_def nil_slice_def)
  have uk: "list_all is_uint (elts (iextras long_key_msg))"
    and uv: "list_all is_uint (elts (iextras huge_val_msg))"
    by (simp_all add: e)
  note sk = send_nofail [OF uk c _ r, of example_decls, simplified]
  note sv = send_nofail [OF uv c _ r, of example_decls, simplified]
  have k1: "sent_BodyLen example_decls long_key_msg (open_conn []) = Some 0"
    by (simp add: sent_BodyLen_def sk e extras_bytes_def sent_header_def)
       (simp add: long_key_msg_def zero_msg_def)
  have k2: "body_length long_key_msg = 65536"
    by (simp add: body_length_def e extras_bytes_def) (simp add: long_key_msg_def zero_msg_def)
  have v1: "sent_BodyLen example_decls huge_val_msg (open_conn []) = Some 0"
    by (simp add: sent_BodyLen_def sv e extras_bytes_def sent_header_def)
       (simp add: huge_val_msg_def zero_msg_def)
  have v2: "body_length huge_val_msg = 4294967296"
    by (simp add: body_length_def e extras_bytes_def) (simp add: huge_val_msg_def zero_msg_def)
  from w1 w2 k1 k2 v1 v2 show ?thesis
    by simp
qed

section \<open>Properties of receiving\<close>

lemma bit_byte_of:
  "bit (push_bit k (ucast (ucast (drop_bit k v) :: 8 word)) :: 'a::len word) n
     \<longleftrightarrow> k \<le> n \<and> n < k + 8 \<and> n < LENGTH('a) \<and> bit (v :: 'a word) n"
  by (auto simp add: bit_simps)

lemma bit_low_byte:
  "bit (ucast (ucast v :: 8 word) :: 'a::len word) n \<longleftrightarrow> n < 8 \<and> n < LENGTH('a) \<and> bit (v :: 'a word) n"
  by (auto simp add: bit_simps)

lemma be16_PutUint16: "be16 (ucast (drop_bit 8 v)) (ucast v) = v"
  by (rule bit_word_eqI) (auto simp add: be16_def bit_or_iff bit_byte_of bit_low_byte)

lemma be32_PutUint32:
  "be32 (ucast (drop_bit 24 v)) (ucast (drop_bit 16 v)) (ucast (drop_bit 8 v)) (ucast v) = v"
  by (rule bit_word_eqI) (auto simp add: be32_def bit_or_iff bit_byte_of bit_low_byte)

lemma be64_PutUint64:
  "be64 (ucast (drop_bit 56 v)) (ucast (drop_bit 48 v)) (ucast (drop_bit 40 v))
        (ucast (drop_bit 32 v)) (ucast (drop_bit 24 v)) (ucast (drop_bit 16 v))
        (ucast (drop_bit 8 v)) (ucast v) = v"
  by (rule bit_word_eqI) (auto simp add: be64_def bit_or_iff bit_byte_of bit_low_byte)

lemma Uint16_PutUint16: "Uint16 (PutUint16 v @ bs) = Returns v"
  by (simp add: Uint16_def PutUint16_def be16_PutUint16)

lemma Uint32_PutUint32: "Uint32 (PutUint32 v @ bs) = Returns v"
  by (simp add: Uint32_def PutUint32_def be32_PutUint32)

lemma Uint64_PutUint64: "Uint64 (PutUint64 v @ bs) = Returns v"
  by (simp add: Uint64_def PutUint64_def be64_PutUint64)

lemma length_put_header: "length (put_header h) = 24"
  by (simp add: put_header_def PutUint16_def PutUint32_def PutUint64_def)

lemma parse_put_header: "parse_header (put_header h @ bs) = h"
  by (simp add: parse_header_def put_header_def PutUint16_def PutUint32_def PutUint64_def
      be16_PutUint16 be32_PutUint32 be64_PutUint64)

lemma index_ok: "off + 1 \<le> length eb \<Longrightarrow> index eb off = Returns (eb ! off)"
  by (simp add: index_def)

lemma Uint16_ok: "2 \<le> length t \<Longrightarrow> \<exists>v. Uint16 t = Returns v"
  by (auto simp add: Uint16_def eval_nat_numeral Suc_le_length_iff)

lemma Uint32_ok: "4 \<le> length t \<Longrightarrow> \<exists>v. Uint32 t = Returns v"
  by (auto simp add: Uint32_def eval_nat_numeral Suc_le_length_iff)

lemma Uint64_ok: "8 \<le> length t \<Longrightarrow> \<exists>v. Uint64 t = Returns v"
  by (auto simp add: Uint64_def eval_nat_numeral Suc_le_length_iff)

lemma Uint16_at_ok: "off + 2 \<le> length eb \<Longrightarrow> \<exists>v. Uint16_at eb off = Returns v"
  using Uint16_ok [of "drop off eb"] by (simp add: Uint16_at_def slice_from_def)

lemma Uint32_at_ok: "off + 4 \<le> length eb \<Longrightarrow> \<exists>v. Uint32_at eb off = Returns v"
  using Uint32_ok [of "drop off eb"] by (simp add: Uint32_at_def slice_from_def)

lemma Uint64_at_ok: "off + 8 \<le> length eb \<Longrightarrow> \<exists>v. Uint64_at eb off = Returns v"
  using Uint64_ok [of "drop off eb"] by (simp add: Uint64_at_def slice_from_def)

lemma extras_fit_Nil: "extras_fit [] off n = (off \<le> n)"
  by (simp add: extras_fit_def extras_needed_def)

lemma extras_fit_Cons:
  "extras_fit (e # es) off n = (is_dest e \<and> extras_fit es (off + dest_width e) n)"
  by (auto simp add: extras_fit_def extras_needed_def)

lemma extras_fit_le: "extras_fit es off n \<Longrightarrow> off \<le> n"
  by (simp add: extras_fit_def)

lemma recv_extras_result:
  "off \<le> length eb \<Longrightarrow> \<exists>r h'. recv_extras D es eb off h = Returns (r, h') \<and>
     (r = None \<longrightarrow> extras_fit es off (length eb)) \<and>
     (\<forall>e. r = Some e \<longrightarrow> Status e = StatusNetworkError D \<and> \<not> extras_fit es off (length eb))"
proof (induction es arbitrary: off h)
  case Nil
  then show ?case by (simp add: extras_fit_Nil)
next
  case (Cons e es)
  show ?case
  proof (cases e)
    case (PU8 a)
    show ?thesis
    proof (cases "off + 1 > length eb")
      case True
      then have "\<not> extras_fit es (off + 1) (length eb)"
        using extras_fit_le [of es "off + 1" "length eb"] by auto
      with True PU8 show ?thesis
        by (simp add: extras_fit_Cons is_dest_def dest_width_def wrapError_def)
    next
      case False
      then have le: "off + 1 \<le> length eb" by simp
      from Cons.IH [OF le, of "h\<lparr>mem8 := (mem8 h)(a := eb ! off)\<rparr>"] False PU8 show ?thesis
        by (simp add: index_ok [OF le] extras_fit_Cons is_dest_def dest_width_def)
    qed
  next
    case (PU16 a)
    show ?thesis
    proof (cases "off + 2 > length eb")
      case True
      then have "\<not> extras_fit es (off + 2) (length eb)"
        using extras_fit_le [of es "off + 2" "length eb"] by auto
      with True PU16 show ?thesis
        by (simp add: extras_fit_Cons is_dest_def dest_width_def wrapError_def)
    next
      case False
      then have le: "off + 2 \<le> length eb" by simp
      from Uint16_at_ok [OF le] obtain v where v: "Uint16_at eb off = Returns v" by blast
      from Cons.IH [OF le, of "h\<lparr>mem16 := (mem16 h)(a := v)\<rparr>"] False PU16 show ?thesis
        by (simp add: v extras_fit_Cons is_dest_def dest_width_def)
    qed
  next
    case (PU32 a)
    show ?thesis
    proof (cases "off + 4 > length eb")
      case True
      then have "\<not> extras_fit es (off + 4) (length eb)"
        using extras_fit_le [of es "off + 4" "length eb"] by auto
      with True PU32 show ?thesis
        by (simp add: extras_fit_Cons is_dest_def dest_width_def wrapError_def)
    next
      case False
      then have le: "off + 4 \<le> length eb" by simp
      from Uint32_at_ok [OF le] obtain v where v: "Uint32_at eb off = Returns v" by blast
      from Cons.IH [OF le, of "h\<lparr>mem32 := (mem32 h)(a := v)\<rparr>"] False PU32 show ?thesis
        by (simp add: v extras_fit_Cons is_dest_def dest_width_def)
    qed
  next
    case (PU64 a)
    show ?thesis
    proof (cases "off + 8 > length eb")
      case True
      then have "\<not> extras_fit es (off + 8) (length eb)"
        using extras_fit_le [of es "off + 8" "length eb"] by auto
      with True PU64 show ?thesis
        by (simp add: extras_fit_Cons is_dest_def dest_width_def wrapError_def)
    next
      case False
      then have le: "off + 8 \<le> length eb" by simp
      from Uint64_at_ok [OF le] obtain v where v: "Uint64_at eb off = Returns v" by blast
      from Cons.IH [OF le, of "h\<lparr>mem64 := (mem64 h)(a := v)\<rparr>"] False PU64 show ?thesis
        by (simp add: v extras_fit_Cons is_dest_def dest_width_def)
    qed
  qed (simp_all add: extras_fit_Cons is_dest_def wrapError_def)
qed

lemma recv_key_result:
  "\<exists>r m' h'. recv_key D m buf h = Returns (r, m', h') \<and>
     (length buf < unat (KeyLen (header m)) \<longrightarrow>
        (\<exists>e. r = Some e \<and> Status e = StatusNetworkError D))"
  by (simp add: recv_key_def wrapError_def)

lemma recv_body_result:
  "\<exists>r m' h'. recv_body D m buf h = Returns (r, m', h') \<and>
     (short_for_extras (header m) (elts (oextras m)) buf \<or> short_for_key (header m) buf \<longrightarrow>
        (\<exists>e. r = Some e \<and> Status e = StatusNetworkError D))"
proof (cases "ResvOrStatus (header m) = 0 \<and> ExtraLen (header m) > 0")
  case False
  then have "recv_body D m buf h = recv_key D m buf h"
    by (auto simp add: recv_body_def)
  with False recv_key_result [of D m buf h] show ?thesis
    by (auto simp add: short_for_extras_def short_for_key_def extras_consumed_def)
next
  case True
  let ?el = "unat (ExtraLen (header m))"
  show ?thesis
  proof (cases "length buf < ?el")
    case short: True
    with True show ?thesis
      by (simp add: recv_body_def wrapError_def)
  next
    case long: False
    let ?eb = "take ?el buf"
    have len: "length ?eb = ?el" using long by simp
    from recv_extras_result [of 0 ?eb D "elts (oextras m)" h] obtain r h' where
      r: "recv_extras D (elts (oextras m)) ?eb 0 h = Returns (r, h')"
      and rn: "r = None \<longrightarrow> extras_fit (elts (oextras m)) 0 ?el"
      and rs: "\<forall>e. r = Some e \<longrightarrow> Status e = StatusNetworkError D \<and> \<not> extras_fit (elts (oextras m)) 0 ?el"
      unfolding len by auto
    show ?thesis
    proof (cases r)
      case (Some e)
      with True long r rs show ?thesis
        by (simp add: recv_body_def Let_def)
    next
      case None
      with rn have fit: "extras_needed (elts (oextras m)) \<le> ?el"
        by (simp add: extras_fit_def)
      have b: "recv_body D m buf h = recv_key D m (drop ?el buf) h'"
        using True long r None by (simp add: recv_body_def Let_def)
      from fit long have nx: "\<not> short_for_extras (header m) (elts (oextras m)) buf"
        by (simp add: short_for_extras_def)
      have k: "short_for_key (header m) buf \<longrightarrow> length (drop ?el buf) < unat (KeyLen (header m))"
        using True long by (auto simp add: short_for_key_def extras_consumed_def)
      from recv_key_result [of D m "drop ?el buf" h'] b nx k show ?thesis
        by auto
    qed
  qed
qed

lemma parse_header_append: "length hb = 24 \<Longrightarrow> parse_header (hb @ xs) = parse_header hb"
  by (simp add: parse_header_def nth_append)

lemma ReadFull_enough:
  "rd c = a @ b \<Longrightarrow> length a = n \<Longrightarrow> ReadFull c n = (True, a, c\<lparr>rd := b\<rparr>)"
  by (simp add: ReadFull_def)

lemma ReadFull_short:
  "length (rd c) < n \<Longrightarrow> ReadFull c n = (False, rd c, c\<lparr>rd := []\<rparr>)"
  by (simp add: ReadFull_def)

lemma recv_frame:
  assumes "conn (sc w) = Some c" and "rw (sc w)" and "pools_ok (pools w)"
    and "rd c = hb @ body @ rest" and "length hb = 24"
    and "length body = unat (BodyLen (parse_header hb))"
  shows "\<exists>ps'. pools_ok ps' \<and>
     recv D m w =
       (case recv_body D (m\<lparr>header := parse_header hb\<rparr>) body (heap w) of
          Panics \<Rightarrow> Panics
        | Returns (err, m2, h2) \<Rightarrow>
            Returns (err, m2,
              w\<lparr>sc := (sc w)\<lparr>conn := Some (c\<lparr>rd := rest\<rparr>),
                            hdrBuf := hb @ drop 24 (hdrBuf (sc w))\<rparr>,
                pools := ps', heap := h2\<rparr>))"
proof -
  let ?h = "parse_header hb"
  have r1: "ReadFull c 24 = (True, hb, c\<lparr>rd := body @ rest\<rparr>)"
    using assms(4,5) by (simp add: ReadFull_enough)
  have ph: "parse_header (fill (hdrBuf (sc w)) hb) = ?h"
    using assms(5) by (simp add: fill_def parse_header_append)
  have nn: "0 \<le> uint (BodyLen ?h)" by simp
  from getBodyBuffer_ok [OF assms(3) nn] obtain b ps1 where
    g: "getBodyBuffer (uint (BodyLen ?h)) (pools w) = Returns (b, ps1)"
    and l: "len b = nat (uint (BodyLen ?h))" and ok: "pools_ok ps1"
    by blast
  have lb: "len b = length body"
    using l assms(6) by simp
  have r2: "ReadFull (c\<lparr>rd := body @ rest\<rparr>) (len b) = (True, body, c\<lparr>rd := rest\<rparr>)"
    using lb by (simp add: ReadFull_def)
  have f: "fill (elts b) body = body"
    using lb by (simp add: fill_def len_def)
  have d: "drop (length body) (elts b) = []"
    using lb by (simp add: len_def)
  let ?ps = "putBodyBuffer (b\<lparr>elts := body\<rparr>) ps1"
  have "pools_ok ?ps" using ok by (rule pools_ok_put)
  moreover have "recv D m w =
       (case recv_body D (m\<lparr>header := ?h\<rparr>) body (heap w) of
          Panics \<Rightarrow> Panics
        | Returns (err, m2, h2) \<Rightarrow>
            Returns (err, m2,
              w\<lparr>sc := (sc w)\<lparr>conn := Some (c\<lparr>rd := rest\<rparr>),
                            hdrBuf := hb @ drop 24 (hdrBuf (sc w))\<rparr>,
                pools := ?ps, heap := h2\<rparr>))"
    using assms(1,2,5)
    by (simp add: recv_def r1 Let_def ph g r2 f) (simp add: fill_def d split: result.splits)
  ultimately show ?thesis by blast
qed

lemma recv_short_header:
  assumes "conn (sc w) = Some c" and "rw (sc w)" and "length (rd c) < 24"
  shows "recv D m w =
     Returns (Some (wrapError (StatusNetworkError D)), m,
       w\<lparr>sc := (sc w)\<lparr>conn := Some (c\<lparr>rd := []\<rparr>), hdrBuf := fill (hdrBuf (sc w)) (rd c)\<rparr>\<rparr>)"
  using assms by (simp add: recv_def ReadFull_short)

lemma recv_short_body:
  assumes "conn (sc w) = Some c" and "rw (sc w)" and "pools_ok (pools w)"
    and "rd c = hb @ r" and "length hb = 24"
    and "length r < unat (BodyLen (parse_header hb))"
  shows "\<exists>ps'. pools_ok ps' \<and> recv D m w =
     Returns (Some (wrapError (StatusNetworkError D)), m\<lparr>header := parse_header hb\<rparr>,
       w\<lparr>sc := (sc w)\<lparr>conn := Some (c\<lparr>rd := []\<rparr>), hdrBuf := hb @ drop 24 (hdrBuf (sc w))\<rparr>,
         pools := ps'\<rparr>)"
proof -
  let ?h = "parse_header hb"
  have r1: "ReadFull c 24 = (True, hb, c\<lparr>rd := r\<rparr>)"
    using assms(4,5) by (simp add: ReadFull_enough)
  have ph: "parse_header (fill (hdrBuf (sc w)) hb) = ?h"
    using assms(5) by (simp add: fill_def parse_header_append)
  have nn: "0 \<le> uint (BodyLen ?h)" by simp
  from getBodyBuffer_ok [OF assms(3) nn] obtain b ps1 where
    g: "getBodyBuffer (uint (BodyLen ?h)) (pools w) = Returns (b, ps1)"
    and l: "len b = nat (uint (BodyLen ?h))" and ok: "pools_ok ps1"
    by blast
  have lb: "length r < len b"
    using l assms(6) by simp
  have r2: "ReadFull (c\<lparr>rd := r\<rparr>) (len b) = (False, r, c\<lparr>rd := []\<rparr>)"
    using lb by (simp add: ReadFull_def)
  let ?ps = "putBodyBuffer (b\<lparr>elts := fill (elts b) r\<rparr>) ps1"
  have "pools_ok ?ps" using ok by (rule pools_ok_put)
  moreover have "recv D m w =
     Returns (Some (wrapError (StatusNetworkError D)), m\<lparr>header := ?h\<rparr>,
       w\<lparr>sc := (sc w)\<lparr>conn := Some (c\<lparr>rd := []\<rparr>), hdrBuf := hb @ drop 24 (hdrBuf (sc w))\<rparr>,
         pools := ?ps\<rparr>)"
    using assms(1,2,5)
    by (simp add: recv_def r1 Let_def ph g r2) (simp add: fill_def)
  ultimately show ?thesis by blast
qed

lemma split_stream:
  "24 \<le> length xs \<Longrightarrow> \<exists>hb r. xs = hb @ r \<and> length hb = 24"
  by (rule exI [of _ "take 24 xs"], rule exI [of _ "drop 24 xs"]) simp

lemma split_body:
  "n \<le> length r \<Longrightarrow> \<exists>body rest. r = body @ rest \<and> length body = n"
  by (rule exI [of _ "take n r"], rule exI [of _ "drop n r"]) simp

lemma recv_returns:
  assumes "conn (sc w) = Some c" and "rw (sc w)" and "pools_ok (pools w)"
  shows "\<exists>err m' w'. recv D m w = Returns (err, m', w')"
proof (cases "length (rd c) < 24")
  case True
  from recv_short_header [OF assms(1,2) True] show ?thesis by blast
next
  case False
  then obtain hb r where s: "rd c = hb @ r" and l: "length hb = 24"
    using split_stream [of "rd c"] by auto
  show ?thesis
  proof (cases "length r < unat (BodyLen (parse_header hb))")
    case True
    from recv_short_body [OF assms s l True] show ?thesis by blast
  next
    case False
    then obtain body rest where b: "r = body @ rest"
      and lb: "length body = unat (BodyLen (parse_header hb))"
      using split_body [of "unat (BodyLen (parse_header hb))" r] by auto
    from recv_frame [OF assms s [unfolded b] l lb, of D m]
      recv_body_result [of D "m\<lparr>header := parse_header hb\<rparr>" body "heap w"]
    show ?thesis by auto
  qed
qed

text \<open>
  C7.  On an established connection \<open>recv\<close> always returns: none of its slice
  expressions, index expressions or big-endian reads is out of range, whatever the bytes
  of the stream and whatever the list of destinations.  When the body arrives in full
  (as many bytes as the header declares) but is too short, \<open>recv\<close> returns an error
  of status \<open>StatusNetworkError\<close> and has consumed the header and the body, no more:
  too short means that, the status being 0 and the extras length positive, the body or
  the extras segment is shorter than the widths of the destinations in \<open>oextras\<close> add up
  to, or that fewer bytes than the key length are left after the extras segment.  The
  same error is returned when the stream ends before the header or the body is complete.
\<close>

theorem recv_truncated:
  assumes "conn (sc w) = Some c" and "rw (sc w)" and "pools_ok (pools w)"
  shows "(\<exists>err m' w'. recv D m w = Returns (err, m', w')) \<and>
         (\<forall>hb body rest.
            rd c = hb @ body @ rest \<and> length hb = 24 \<and>
            length body = unat (BodyLen (parse_header hb)) \<and>
            (short_for_extras (parse_header hb) (elts (oextras m)) body \<or>
             short_for_key (parse_header hb) body)
            \<longrightarrow> (\<exists>e m' w'. recv D m w = Returns (Some e, m', w') \<and>
                    Status e = StatusNetworkError D \<and>
                    conn (sc w') = Some (c\<lparr>rd := rest\<rparr>))) \<and>
         (length (rd c) < 24 \<or>
          (\<exists>hb r. rd c = hb @ r \<and> length hb = 24 \<and> length r < unat (BodyLen (parse_header hb)))
            \<longrightarrow> (\<exists>e m' w'. recv D m w = Returns (Some e, m', w') \<and>
                    Status e = StatusNetworkError D))"
proof (intro conjI allI impI)
  show "\<exists>err m' w'. recv D m w = Returns (err, m', w')"
    using assms by (rule recv_returns)
next
  fix hb body rest
  assume a: "rd c = hb @ body @ rest \<and> length hb = 24 \<and>
            length body = unat (BodyLen (parse_header hb)) \<and>
            (short_for_extras (parse_header hb) (elts (oextras m)) body \<or>
             short_for_key (parse_header hb) body)"
  then have s: "rd c = hb @ body @ rest" and l: "length hb = 24"
    and lb: "length body = unat (BodyLen (parse_header hb))"
    and t: "short_for_extras (header (m\<lparr>header := parse_header hb\<rparr>))
              (elts (oextras (m\<lparr>header := parse_header hb\<rparr>))) body \<or>
            short_for_key (header (m\<lparr>header := parse_header hb\<rparr>)) body"
    by simp_all
  from recv_body_result [of D "m\<lparr>header := parse_header hb\<rparr>" body "heap w"] t
  obtain e m2 h2 where
    rb: "recv_body D (m\<lparr>header := parse_header hb\<rparr>) body (heap w) = Returns (Some e, m2, h2)"
    and st: "Status e = StatusNetworkError D"
    by blast
  from recv_frame [OF assms s l lb, of D m] rb st
  show "\<exists>e m' w'. recv D m w = Returns (Some e, m', w') \<and> Status e = StatusNetworkError D \<and>
          conn (sc w') = Some (c\<lparr>rd := rest\<rparr>)"
    by auto
next
  assume a: "length (rd c) < 24 \<or>
          (\<exists>hb r. rd c = hb @ r \<and> length hb = 24 \<and> length r < unat (BodyLen (parse_header hb)))"
  then show "\<exists>e m' w'. recv D m w = Returns (Some e, m', w') \<and> Status e = StatusNetworkError D"
  proof
    assume "length (rd c) < 24"
    from recv_short_header [OF assms(1,2) this, of D m] show ?thesis
      by (simp add: wrapError_def)
  next
    assume "\<exists>hb r. rd c = hb @ r \<and> length hb = 24 \<and> length r < unat (BodyLen (parse_header hb))"
    then obtain hb r where s: "rd c = hb @ r" and l: "length hb = 24"
      and sh: "length r < unat (BodyLen (parse_header hb))"
      by blast
    from recv_short_body [OF assms s l sh, of D m] show ?thesis
      by (auto simp add: wrapError_def)
  qed
qed

text \<open>C7 at a concrete input: four bytes of extras declared, two bytes of body delivered.\<close>

theorem recv_truncated_witness:
  "conn (sc (world_of (open_conn (put_header short_header @ [0xCA, 0xFE]))))
     = Some \<lparr>rd = put_header short_header @ [0xCA, 0xFE], wr = [], wfail = None\<rparr> \<and>
   rw (sc (world_of (open_conn (put_header short_header @ [0xCA, 0xFE])))) \<and>
   pools_ok (pools (world_of (open_conn (put_header short_header @ [0xCA, 0xFE])))) \<and>
   short_for_extras short_header (elts (oextras flags_msg)) [0xCA, 0xFE] \<and>
   (\<exists>e m' w'. recv example_decls flags_msg
        (world_of (open_conn (put_header short_header @ [0xCA, 0xFE]))) = Returns (Some e, m', w') \<and>
      Status e = StatusNetworkError example_decls)"
proof -
  let ?w = "world_of (open_conn (put_header short_header @ [0xCA, 0xFE]))"
  let ?c = "\<lparr>rd = put_header short_header @ [0xCA, 0xFE], wr = [], wfail = None\<rparr>"
  have c: "conn (sc ?w) = Some ?c" and r: "rw (sc ?w)" and p: "pools_ok (pools ?w)"
    by (simp_all add: world_of_def open_conn_def pools_ok_empty)
  have ph: "parse_header (put_header short_header) = short_header"
    using parse_put_header [of short_header "[]"] by simp
  have sh: "short_for_extras short_header (elts (oextras flags_msg)) [0xCA, 0xFE]"
    by (simp add: short_for_extras_def short_header_def zero_header_def flags_msg_def lit_def
        extras_needed_def dest_width_def)
  have st: "rd ?c = put_header short_header @ [0xCA, 0xFE] @ [] \<and>
      length (put_header short_header) = 24 \<and>
      length [0xCA, 0xFE :: byte] = unat (BodyLen (parse_header (put_header short_header))) \<and>
      (short_for_extras (parse_header (put_header short_header)) (elts (oextras flags_msg)) [0xCA, 0xFE] \<or>
       short_for_key (parse_header (put_header short_header)) [0xCA, 0xFE])"
    using sh by (simp add: ph length_put_header) (simp add: short_header_def)
  from recv_truncated [OF c r p, of example_decls flags_msg] st
  have "\<exists>e m' w'. recv example_decls flags_msg ?w = Returns (Some e, m', w') \<and>
      Status e = StatusNetworkError example_decls"
    by blast
  with c r p sh show ?thesis
    by blast
qed

section \<open>The round trip\<close>

lemma dest_for_cases:
  "dest_for v p \<Longrightarrow>
     (\<exists>x a. v = U8 x \<and> p = PU8 a) \<or> (\<exists>x a. v = U16 x \<and> p = PU16 a) \<or>
     (\<exists>x a. v = U32 x \<and> p = PU32 a) \<or> (\<exists>x a. v = U64 x \<and> p = PU64 a)"
  by (cases v; cases p) (simp_all add: dest_for_def)

lemma dest_for_is_uint: "list_all2 dest_for vs ps \<Longrightarrow> list_all is_uint vs"
  by (induction rule: list_all2_induct) (auto dest!: dest_for_cases simp add: is_uint_def)

lemma index_at: "index (pre @ x # post) (length pre) = Returns x"
  by (simp add: index_def)

lemma Uint16_at_put: "Uint16_at (pre @ PutUint16 x @ post) (length pre) = Returns x"
  by (simp add: Uint16_at_def slice_from_def Uint16_PutUint16)

lemma Uint32_at_put: "Uint32_at (pre @ PutUint32 x @ post) (length pre) = Returns x"
  by (simp add: Uint32_at_def slice_from_def Uint32_PutUint32)

lemma Uint64_at_put: "Uint64_at (pre @ PutUint64 x @ post) (length pre) = Returns x"
  by (simp add: Uint64_at_def slice_from_def Uint64_PutUint64)

lemma extras_bytes_Cons: "extras_bytes (e # es) = extra_bytes e @ extras_bytes es"
  by (simp add: extras_bytes_def)

lemma extra_bytes_simps:
  "extra_bytes (U8 x) = [x]" "extra_bytes (U16 y) = PutUint16 y"
  "extra_bytes (U32 z) = PutUint32 z" "extra_bytes (U64 u) = PutUint64 u"
  by (simp_all add: extra_bytes_def put_extra_def)

lemma length_PutUint:
  "length (PutUint16 y) = 2" "length (PutUint32 z) = 4" "length (PutUint64 u) = 8"
  by (simp_all add: PutUint16_def PutUint32_def PutUint64_def)

lemma deref_upd_other:
  "q \<noteq> PU8 a \<Longrightarrow> deref (h\<lparr>mem8 := (mem8 h)(a := x8)\<rparr>) q = deref h q"
  "q \<noteq> PU16 a \<Longrightarrow> deref (h\<lparr>mem16 := (mem16 h)(a := x16)\<rparr>) q = deref h q"
  "q \<noteq> PU32 a \<Longrightarrow> deref (h\<lparr>mem32 := (mem32 h)(a := x32)\<rparr>) q = deref h q"
  "q \<noteq> PU64 a \<Longrightarrow> deref (h\<lparr>mem64 := (mem64 h)(a := x64)\<rparr>) q = deref h q"
  by (cases q; simp add: deref_def)+

lemma deref_upd_same:
  "deref (h\<lparr>mem8 := (mem8 h)(a := x8)\<rparr>) (PU8 a) = U8 x8"
  "deref (h\<lparr>mem16 := (mem16 h)(a := x16)\<rparr>) (PU16 a) = U16 x16"
  "deref (h\<lparr>mem32 := (mem32 h)(a := x32)\<rparr>) (PU32 a) = U32 x32"
  "deref (h\<lparr>mem64 := (mem64 h)(a := x64)\<rparr>) (PU64 a) = U64 x64"
  by (simp_all add: deref_def)

text \<open>One destination written, then the rest of the loop: what the variables hold.\<close>

lemma roundtrip_step:
  assumes "deref h1 p = v" and "\<And>q. q \<noteq> p \<Longrightarrow> deref h1 q = deref h q" and "p \<notin> set ps"
    and "map (deref h') ps = vs" and "\<forall>q. q \<notin> set ps \<longrightarrow> deref h' q = deref h1 q"
  shows "map (deref h') (p # ps) = v # vs \<and> (\<forall>q. q \<notin> set (p # ps) \<longrightarrow> deref h' q = deref h q)"
  using assms by auto

lemma recv_extras_roundtrip:
  assumes "list_all2 dest_for vs ps" and "distinct ps"
  shows "\<exists>h'. recv_extras D ps (pre @ extras_bytes vs @ post) (length pre) h = Returns (None, h') \<and>
           map (deref h') ps = vs \<and> (\<forall>q. q \<notin> set ps \<longrightarrow> deref h' q = deref h q)"
  using assms
proof (induction vs ps arbitrary: pre h rule: list_all2_induct)
  case Nil
  then show ?case by simp
next
  case (Cons v vs p ps)
  from Cons.prems have np: "p \<notin> set ps" and d: "distinct ps" by simp_all
  note IH = Cons.IH [OF d]
  from dest_for_cases [OF Cons.hyps(1)] show ?case
  proof (elim disjE exE conjE)
    fix x a assume v: "v = U8 x" and p: "p = PU8 a"
    let ?h = "h\<lparr>mem8 := (mem8 h)(a := x)\<rparr>"
    from IH [of "pre @ [x]" ?h] obtain h' where
      r: "recv_extras D ps (pre @ [x] @ extras_bytes vs @ post) (Suc (length pre)) ?h = Returns (None, h')"
      and m: "map (deref h') ps = vs" and f: "\<forall>q. q \<notin> set ps \<longrightarrow> deref h' q = deref ?h q"
      by auto
    have "recv_extras D (p # ps) (pre @ extras_bytes (v # vs) @ post) (length pre) h = Returns (None, h')"
      using r index_at [of pre x "extras_bytes vs @ post"]
      by (simp add: v p extras_bytes_Cons extra_bytes_simps)
    with roundtrip_step [of ?h p v h ps h' vs] np m f show ?thesis
      by (auto simp add: v p deref_upd_same deref_upd_other)
  next
    fix x a assume v: "v = U16 x" and p: "p = PU16 a"
    let ?h = "h\<lparr>mem16 := (mem16 h)(a := x)\<rparr>"
    from IH [of "pre @ PutUint16 x" ?h] obtain h' where
      r: "recv_extras D ps (pre @ PutUint16 x @ extras_bytes vs @ post) (length pre + 2) ?h = Returns (None, h')"
      and m: "map (deref h') ps = vs" and f: "\<forall>q. q \<notin> set ps \<longrightarrow> deref h' q = deref ?h q"
      by (auto simp add: length_PutUint)
    have "recv_extras D (p # ps) (pre @ extras_bytes (v # vs) @ post) (length pre) h = Returns (None, h')"
      using r Uint16_at_put [of pre x "extras_bytes vs @ post"]
      by (simp add: v p extras_bytes_Cons extra_bytes_simps length_PutUint)
    with roundtrip_step [of ?h p v h ps h' vs] np m f show ?thesis
      by (auto simp add: v p deref_upd_same deref_upd_other)
  next
    fix x a assume v: "v = U32 x" and p: "p = PU32 a"
    let ?h = "h\<lparr>mem32 := (mem32 h)(a := x)\<rparr>"
    from IH [of "pre @ PutUint32 x" ?h] obtain h' where
      r: "recv_extras D ps (pre @ PutUint32 x @ extras_bytes vs @ post) (length pre + 4) ?h = Returns (None, h')"
      and m: "map (deref h') ps = vs" and f: "\<forall>q. q \<notin> set ps \<longrightarrow> deref h' q = deref ?h q"
      by (auto simp add: length_PutUint)
    have "recv_extras D (p # ps) (pre @ extras_bytes (v # vs) @ post) (length pre) h = Returns (None, h')"
      using r Uint32_at_put [of pre x "extras_bytes vs @ post"]
      by (simp add: v p extras_bytes_Cons extra_bytes_simps length_PutUint)
    with roundtrip_step [of ?h p v h ps h' vs] np m f show ?thesis
      by (auto simp add: v p deref_upd_same deref_upd_other)
  next
    fix x a assume v: "v = U64 x" and p: "p = PU64 a"
    let ?h = "h\<lparr>mem64 := (mem64 h)(a := x)\<rparr>"
    from IH [of "pre @ PutUint64 x" ?h] obtain h' where
      r: "recv_extras D ps (pre @ PutUint64 x @ extras_bytes vs @ post) (length pre + 8) ?h = Returns (None, h')"
      and m: "map (deref h') ps = vs" and f: "\<forall>q. q \<notin> set ps \<longrightarrow> deref h' q = deref ?h q"
      by (auto simp add: length_PutUint)
    have "recv_extras D (p # ps) (pre @ extras_bytes (v # vs) @ post) (length pre) h = Returns (None, h')"
      using r Uint64_at_put [of pre x "extras_bytes vs @ post"]
      by (simp add: v p extras_bytes_Cons extra_bytes_simps length_PutUint)
    with roundtrip_step [of ?h p v h ps h' vs] np m f show ?thesis
      by (auto simp add: v p deref_upd_same deref_upd_other)
  qed
qed

lemma extras_bytes_empty: "list_all is_uint vs \<Longrightarrow> extras_bytes vs = [] \<Longrightarrow> vs = []"
  by (cases vs) (auto dest!: is_uint_cases simp add: extras_bytes_Cons extra_bytes_simps
      PutUint16_def PutUint32_def PutUint64_def)

lemma recv_body_roundtrip:
  assumes "list_all2 dest_for vs (elts (oextras m))" and "distinct (elts (oextras m))"
    and "ResvOrStatus (header m) = 0" and "newError D 0 = None"
    and "unat (ExtraLen (header m)) = length (extras_bytes vs)"
    and "unat (KeyLen (header m)) = length k"
  shows "\<exists>h'. recv_body D m (extras_bytes vs @ k @ v) h = Returns (None, m\<lparr>key := k, val := v\<rparr>, h') \<and>
           map (deref h') (elts (oextras m)) = vs"
proof (cases "ExtraLen (header m) = 0")
  case True
  with assms(5) have "extras_bytes vs = []" by simp
  with dest_for_is_uint [OF assms(1)] have vs: "vs = []"
    by (rule extras_bytes_empty)
  with assms(1) have ps: "elts (oextras m) = []" by simp
  from True assms(3,4,6) show ?thesis
    by (simp add: recv_body_def recv_key_def vs ps extras_bytes_def)
next
  case False
  then have pos: "ExtraLen (header m) > 0"
    by (simp add: word_gt_0)
  from recv_extras_roundtrip [OF assms(1,2), of D "[]" "[]" h] obtain h' where
    r: "recv_extras D (elts (oextras m)) (extras_bytes vs) 0 h = Returns (None, h')"
    and mp: "map (deref h') (elts (oextras m)) = vs"
    by auto
  from pos assms(3,4,5,6) r have
    "recv_body D m (extras_bytes vs @ k @ v) h = Returns (None, m\<lparr>key := k, val := v\<rparr>, h')"
    by (simp add: recv_body_def recv_key_def Let_def)
  with mp show ?thesis by blast
qed

text \<open>
  C1 (as the code has it).  Let a message have a key of at most 250 bytes, a value of at
  most 1 MB, extras of the four unsigned types that take at most 255 bytes in all, and a
  reserved (status) field of 0.  On a connection whose writes succeed, \<open>send\<close> returns no
  error and appends one frame to the bytes written.  When a connection delivers that frame,
  \<open>recv\<close> into a message whose \<open>oextras\<close> are pointers to distinct variables of the same
  widths in the same order returns no error (status 0 being no error), with the key and
  the value of the message sent, and with each variable holding the extras value of its
  position; it consumes the frame and nothing after it.
\<close>

theorem send_recv_roundtrip:
  assumes "length (key m) \<le> 250" and "length (val m) \<le> 1048576"
    and "length (extras_bytes (elts (iextras m))) \<le> 255"
    and "ResvOrStatus (header m) = 0" and "newError D 0 = None"
    and "conn s = Some c" and "wfail c = None" and "rw s"
    and "list_all2 dest_for (elts (iextras m)) (elts (oextras m2))"
    and "distinct (elts (oextras m2))"
    and "conn (sc w) = Some c2" and "rw (sc w)" and "pools_ok (pools w)"
  shows "\<exists>m1 s1 c1 frame.
           send D m s = Returns (None, m1, s1) \<and> conn s1 = Some c1 \<and> wr c1 = wr c @ frame \<and>
           (\<forall>rest. rd c2 = frame @ rest \<longrightarrow>
              (\<exists>m3 w3. recv D m2 w = Returns (None, m3, w3) \<and>
                 key m3 = key m \<and> val m3 = val m \<and>
                 map (deref (heap w3)) (elts (oextras m2)) = elts (iextras m) \<and>
                 conn (sc w3) = Some (c2\<lparr>rd := rest\<rparr>)))"
proof -
  let ?xb = "extras_bytes (elts (iextras m))"
  let ?H = "sent_header D m s (of_nat (length ?xb))"
  let ?body = "?xb @ key m @ val m"
  let ?frame = "put_header ?H @ ?body"
  have u: "list_all is_uint (elts (iextras m))"
    using assms(9) by (rule dest_for_is_uint)
  note snd = send_nofail [OF u assms(6,7,8), of D]
  have k: "length (key m) \<le> 65535" using assms(1) by simp
  have b: "length ?xb + length (key m) + length (val m) < 2 ^ 32"
    using assms(1,2,3) by simp
  note un = unat_lengths [OF assms(3) k b]
  have st: "ResvOrStatus ?H = 0" and el: "unat (ExtraLen ?H) = length ?xb"
    and kl: "unat (KeyLen ?H) = length (key m)" and bl: "unat (BodyLen ?H) = length ?body"
    using assms(4) un by (simp_all add: sent_header_def)
  have ph: "parse_header (put_header ?H) = ?H"
    using parse_put_header [of ?H "[]"] by simp
  have rcv: "\<exists>m3 w3. recv D m2 w = Returns (None, m3, w3) \<and>
                 key m3 = key m \<and> val m3 = val m \<and>
                 map (deref (heap w3)) (elts (oextras m2)) = elts (iextras m) \<and>
                 conn (sc w3) = Some (c2\<lparr>rd := rest\<rparr>)"
    if rd: "rd c2 = ?frame @ rest" for rest
  proof -
    have rd': "rd c2 = put_header ?H @ ?body @ rest" using rd by simp
    have lb: "length ?body = unat (BodyLen (parse_header (put_header ?H)))"
      using bl by (simp add: ph)
    from recv_frame [OF assms(11,12,13) rd' length_put_header lb, of D m2] obtain ps' where
      r: "recv D m2 w =
           (case recv_body D (m2\<lparr>header := ?H\<rparr>) ?body (heap w) of
              Panics \<Rightarrow> Panics
            | Returns (err, m3, h3) \<Rightarrow>
                Returns (err, m3,
                  w\<lparr>sc := (sc w)\<lparr>conn := Some (c2\<lparr>rd := rest\<rparr>),
                                hdrBuf := put_header ?H @ drop 24 (hdrBuf (sc w))\<rparr>,
                    pools := ps', heap := h3\<rparr>))"
      unfolding ph by blast
    from recv_body_roundtrip [of "elts (iextras m)" "m2\<lparr>header := ?H\<rparr>" D "key m" "val m" "heap w"]
      assms(9,10,5) st el kl
    obtain h' where
      rb: "recv_body D (m2\<lparr>header := ?H\<rparr>) ?body (heap w) =
             Returns (None, m2\<lparr>header := ?H, key := key m, val := val m\<rparr>, h')"
      and mp: "map (deref h') (elts (oextras m2)) = elts (iextras m)"
      by auto
    from r rb mp show ?thesis by simp
  qed
  let ?c1 = "c\<lparr>wr := wr c @ ?frame\<rparr>"
  let ?s1 = "s\<lparr>opq := opq s + 1, hdrBuf := put_header ?H, conn := Some ?c1\<rparr>"
  have A: "send D m s = Returns (None, m\<lparr>header := ?H\<rparr>, ?s1)"
    using snd by simp
  have B: "conn ?s1 = Some ?c1" and C: "wr ?c1 = wr c @ ?frame"
    by simp_all
  have E: "\<forall>rest. rd c2 = ?frame @ rest \<longrightarrow>
              (\<exists>m3 w3. recv D m2 w = Returns (None, m3, w3) \<and>
                 key m3 = key m \<and> val m3 = val m \<and>
                 map (deref (heap w3)) (elts (oextras m2)) = elts (iextras m) \<and>
                 conn (sc w3) = Some (c2\<lparr>rd := rest\<rparr>))"
    using rcv by blast
  from A B C E show ?thesis
    by blast
qed

text \<open>C1 at a concrete input: the request of the package's test, sent and received.\<close>

theorem send_recv_roundtrip_witness:
  "length (key set_msg) \<le> 250 \<and> length (val set_msg) \<le> 1048576 \<and>
   length (extras_bytes (elts (iextras set_msg))) \<le> 255 \<and>
   list_all2 dest_for (elts (iextras set_msg)) (elts (oextras two_dests_msg)) \<and>
   distinct (elts (oextras two_dests_msg)) \<and>
   (\<exists>m3 w3.
      recv example_decls two_dests_msg
        (world_of (open_conn (sent_bytes example_decls set_msg (open_conn [])))) = Returns (None, m3, w3) \<and>
      key m3 = [0x66, 0x6F, 0x6F] \<and> val m3 = [0x62, 0x61, 0x72] \<and>
      mem32 (heap w3) 0 = 0xdeadbeef \<and> mem32 (heap w3) 1 = 3600)"
proof -
  let ?sb = "sent_bytes example_decls set_msg (open_conn [])"
  let ?w = "world_of (open_conn ?sb)"
  let ?c = "\<lparr>rd = [], wr = [], wfail = None\<rparr> :: netconn"
  let ?c2 = "\<lparr>rd = ?sb, wr = [], wfail = None\<rparr>"
  have h1: "length (key set_msg) \<le> 250" and h2: "length (val set_msg) \<le> 1048576"
    and h4: "ResvOrStatus (header set_msg) = 0"
    by (simp_all add: set_msg_def zero_msg_def zero_header_def)
  have h3: "length (extras_bytes (elts (iextras set_msg))) \<le> 255"
    by (simp add: extras_bytes_set_msg)
  have h5: "newError example_decls 0 = None"
    by (simp add: example_decls_def)
  have h6: "conn (open_conn []) = Some ?c" and h7: "wfail ?c = None" and h8: "rw (open_conn [])"
    by (simp_all add: open_conn_def)
  have h9: "list_all2 dest_for (elts (iextras set_msg)) (elts (oextras two_dests_msg))"
    and h10: "distinct (elts (oextras two_dests_msg))"
    by (simp_all add: set_msg_def two_dests_msg_def lit_def dest_for_def)
  have h11: "conn (sc ?w) = Some ?c2" and h12: "rw (sc ?w)" and h13: "pools_ok (pools ?w)"
    by (simp_all add: world_of_def open_conn_def pools_ok_empty)
  from send_recv_roundtrip [OF h1 h2 h3 h4 h5 h6 h7 h8 h9 h10 h11 h12 h13]
  obtain m1 s1 c1 frame where
    s: "send example_decls set_msg (open_conn []) = Returns (None, m1, s1)"
    and c1: "conn s1 = Some c1" and f: "wr c1 = wr ?c @ frame"
    and r: "\<forall>rest. rd ?c2 = frame @ rest \<longrightarrow>
              (\<exists>m3 w3. recv example_decls two_dests_msg ?w = Returns (None, m3, w3) \<and>
                 key m3 = key set_msg \<and> val m3 = val set_msg \<and>
                 map (deref (heap w3)) (elts (oextras two_dests_msg)) = elts (iextras set_msg) \<and>
                 conn (sc w3) = Some (?c2\<lparr>rd := rest\<rparr>))"
    by blast
  have "?sb = frame"
    using s c1 f by (simp add: sent_bytes_def)
  then have "rd ?c2 = frame @ []" by simp
  with r obtain m3 w3 where
    rc: "recv example_decls two_dests_msg ?w = Returns (None, m3, w3)"
    and k: "key m3 = key set_msg" and v: "val m3 = val set_msg"
    and d: "map (deref (heap w3)) (elts (oextras two_dests_msg)) = elts (iextras set_msg)"
    by blast
  from d have "mem32 (heap w3) 0 = 0xdeadbeef \<and> mem32 (heap w3) 1 = 3600"
    by (simp add: two_dests_msg_def set_msg_def lit_def deref_def)
  moreover from k v have "key m3 = [0x66, 0x6F, 0x6F] \<and> val m3 = [0x62, 0x61, 0x72]"
    by (simp add: set_msg_def)
  ultimately show ?thesis
    using h1 h2 h3 h9 h10 rc by blast
qed

lemma extras_bytes_wide_eq: "extras_bytes (elts (iextras wide_msg)) = 0 # replicate 255 0"
proof -
  have "PutUint64 0 = replicate 8 0"
    by (simp add: PutUint64_def eval_nat_numeral)
  then have "extras_bytes (elts (iextras wide_msg)) = concat (replicate 32 (replicate 8 0))"
    by (simp add: wide_msg_def lit_def extras_bytes_def extra_bytes_def put_extra_def)
  also have "\<dots> = replicate 256 0"
    by code_simp
  also have "\<dots> = 0 # replicate 255 0"
    by (simp add: eval_nat_numeral)
  finally show ?thesis .
qed

lemma recv_resv_msg:
  "received (recv example_decls one_dest_msg
      (world_of (open_conn (sent_bytes example_decls resv_msg (open_conn []))))) =
     Some (Some \<lparr>Status = 1\<rparr>, [7], [0x6B])"
proof -
  let ?H = "sent_header example_decls resv_msg (open_conn []) 1"
  let ?sb = "sent_bytes example_decls resv_msg (open_conn [])"
  let ?w = "world_of (open_conn ?sb)"
  let ?c2 = "\<lparr>rd = ?sb, wr = [], wfail = None\<rparr>"
  have kv: "key resv_msg = [0x6B]" "val resv_msg = []" "elts (iextras resv_msg) = [U8 7]"
    by (simp_all add: resv_msg_def zero_msg_def lit_def)
  have xb: "extras_bytes [U8 7] = [7]"
    by (simp add: extras_bytes_def extra_bytes_def put_extra_def)
  have c: "conn (open_conn []) = Some \<lparr>rd = [], wr = [], wfail = None\<rparr>" and r: "rw (open_conn [])"
    by (simp_all add: open_conn_def)
  have u: "list_all is_uint (elts (iextras resv_msg))"
    by (simp add: kv is_uint_def)
  note s = send_nofail [OF u c _ r, of example_decls, simplified]
  have sb: "?sb = put_header ?H @ [7, 0x6B] @ []"
    by (simp add: sent_bytes_def s kv xb)
  have H: "ResvOrStatus ?H = 1" "ExtraLen ?H = 1" "KeyLen ?H = 1" "BodyLen ?H = 2"
    by (simp_all add: sent_header_def kv) (simp_all add: resv_msg_def zero_msg_def zero_header_def)
  have ph: "parse_header (put_header ?H) = ?H"
    using parse_put_header [of ?H "[]"] by simp
  have h11: "conn (sc ?w) = Some ?c2" and h12: "rw (sc ?w)" and h13: "pools_ok (pools ?w)"
    by (simp_all add: world_of_def open_conn_def pools_ok_empty)
  have rd: "rd ?c2 = put_header ?H @ [7, 0x6B] @ []"
    using sb by simp
  have lb: "length [7, 0x6B :: byte] = unat (BodyLen (parse_header (put_header ?H)))"
    by (simp add: ph H)
  have ne: "newError example_decls 1 = Some \<lparr>Status = 1\<rparr>"
    by (simp add: example_decls_def)
  have rb: "recv_body example_decls (one_dest_msg\<lparr>header := ?H\<rparr>) [7, 0x6B] (heap ?w) =
      Returns (Some \<lparr>Status = 1\<rparr>, one_dest_msg\<lparr>header := ?H, key := [7], val := [0x6B]\<rparr>, heap ?w)"
    by (simp add: recv_body_def recv_key_def H ne)
  from recv_frame [OF h11 h12 h13 rd length_put_header lb, of example_decls one_dest_msg] rb
  show ?thesis
    unfolding ph by (auto simp add: received_def)
qed

text \<open>
  C1 as stated fails for extras that take more than 255 bytes: with 32 extras of 64 bits
  the extras length of the frame is 0 and its body length is 1, so the receive, into 32
  destinations of 64 bits, takes the first byte of the extras for the key.  It also fails
  for a message whose reserved field is not 0: the receive reads that field as a status,
  does not decode the extras, takes the key from the extras bytes and returns an error.
\<close>

theorem send_recv_roundtrip_counterexample:
  "length (key wide_msg) \<le> 250 \<and> length (val wide_msg) \<le> 1048576 \<and>
   list_all2 dest_for (elts (iextras wide_msg)) (elts (oextras wide_dests_msg)) \<and>
   distinct (elts (oextras wide_dests_msg)) \<and>
   key wide_msg = [0x6B] \<and>
   received (recv example_decls wide_dests_msg
      (world_of (open_conn (sent_bytes example_decls wide_msg (open_conn []))))) = Some (None, [0], []) \<and>
   list_all2 dest_for (elts (iextras resv_msg)) (elts (oextras one_dest_msg)) \<and>
   key resv_msg = [0x6B] \<and>
   received (recv example_decls one_dest_msg
      (world_of (open_conn (sent_bytes example_decls resv_msg (open_conn []))))) =
     Some (Some \<lparr>Status = 1\<rparr>, [7], [0x6B])"
proof -
  let ?H = "sent_header example_decls wide_msg (open_conn []) 0"
  let ?sb = "sent_bytes example_decls wide_msg (open_conn [])"
  let ?w = "world_of (open_conn ?sb)"
  let ?c2 = "\<lparr>rd = ?sb, wr = [], wfail = None\<rparr>"
  have kv: "key wide_msg = [0x6B]" "val wide_msg = []"
    by (simp_all add: wide_msg_def zero_msg_def)
  have l2: "list_all2 dest_for (elts (iextras wide_msg)) (elts (oextras wide_dests_msg))"
    by (simp add: wide_msg_def wide_dests_msg_def lit_def list_all2_conv_all_nth dest_for_def)
  have ds: "distinct (elts (oextras wide_dests_msg))"
    by (simp add: wide_dests_msg_def lit_def distinct_map inj_on_def)
  have c: "conn (open_conn []) = Some \<lparr>rd = [], wr = [], wfail = None\<rparr>" and r: "rw (open_conn [])"
    by (simp_all add: open_conn_def)
  have u: "list_all is_uint (elts (iextras wide_msg))"
    using l2 by (rule dest_for_is_uint)
  note s = send_nofail [OF u c _ r, of example_decls, simplified]
  have z: "(256 :: 8 word) = 0"
    by simp
  have sb: "?sb = put_header ?H @ [0] @ (replicate 255 0 @ [0x6B])"
    by (simp add: sent_bytes_def s extras_bytes_wide extras_bytes_wide_eq kv z)
  have H: "ResvOrStatus ?H = 0" "ExtraLen ?H = 0" "KeyLen ?H = 1" "BodyLen ?H = 1"
    by (simp_all add: sent_header_def kv) (simp_all add: wide_msg_def zero_msg_def zero_header_def)
  have ph: "parse_header (put_header ?H) = ?H"
    using parse_put_header [of ?H "[]"] by simp
  have h11: "conn (sc ?w) = Some ?c2" and h12: "rw (sc ?w)" and h13: "pools_ok (pools ?w)"
    by (simp_all add: world_of_def open_conn_def pools_ok_empty)
  have rd: "rd ?c2 = put_header ?H @ [0] @ (replicate 255 0 @ [0x6B])"
    using sb by simp
  have lb: "length [0 :: byte] = unat (BodyLen (parse_header (put_header ?H)))"
    by (simp add: ph H)
  have ne: "newError example_decls 0 = None"
    by (simp add: example_decls_def)
  have rb: "recv_body example_decls (wide_dests_msg\<lparr>header := ?H\<rparr>) [0] (heap ?w) =
      Returns (None, wide_dests_msg\<lparr>header := ?H, key := [0], val := []\<rparr>, heap ?w)"
    by (simp add: recv_body_def recv_key_def H ne)
  from recv_frame [OF h11 h12 h13 rd length_put_header lb, of example_decls wide_dests_msg] rb
  have "received (recv example_decls wide_dests_msg ?w) = Some (None, [0], [])"
    unfolding ph by (auto simp add: received_def)
  moreover have "list_all2 dest_for (elts (iextras resv_msg)) (elts (oextras one_dest_msg))"
    and "key resv_msg = [0x6B]"
    by (simp_all add: resv_msg_def one_dest_msg_def zero_msg_def lit_def dest_for_def)
  ultimately show ?thesis
    using kv l2 ds recv_resv_msg by simp
qed

section \<open>Properties of the exchange\<close>

lemma ReadFull_facts:
  "ReadFull c n = (ok, got, c') \<Longrightarrow>
     wr c' = wr c \<and> wfail c' = wfail c \<and> length (rd c') \<le> length (rd c) \<and>
     (ok \<longrightarrow> length (rd c') + n = length (rd c))"
  by (auto simp add: ReadFull_def split: if_splits)

lemma recv_Returns:
  assumes "recv D m w = Returns (err, m', w')"
  shows "\<exists>c c'. conn (sc w) = Some c \<and> rw (sc w) \<and> conn (sc w') = Some c' \<and> rw (sc w') \<and>
           closes (sc w') = closes (sc w) \<and> wr c' = wr c \<and> wfail c' = wfail c \<and>
           username (sc w') = username (sc w) \<and> password (sc w') = password (sc w) \<and>
           scheme (sc w') = scheme (sc w) \<and> opq (sc w') = opq (sc w) \<and>
           length (rd c') \<le> length (rd c) \<and>
           (err = None \<longrightarrow> length (rd c') + 24 \<le> length (rd c))"
proof -
  from assms obtain c where c: "conn (sc w) = Some c" and r: "rw (sc w)"
    by (auto simp add: recv_def split: option.splits if_splits)
  obtain ok got c1 where r1: "ReadFull c 24 = (ok, got, c1)"
    by (cases "ReadFull c 24") auto
  note f1 = ReadFull_facts [OF r1]
  show ?thesis
  proof (cases ok)
    case False
    with assms c r r1 f1 show ?thesis
      by (auto simp add: recv_def)
  next
    case True
    let ?s1 = "(sc w)\<lparr>conn := Some c1, hdrBuf := fill (hdrBuf (sc w)) got\<rparr>"
    let ?m1 = "m\<lparr>header := parse_header (hdrBuf ?s1)\<rparr>"
    from assms c r r1 True obtain body ps1 where
      g: "getBodyBuffer (uint (BodyLen (header ?m1))) (pools w) = Returns (body, ps1)"
      by (auto simp add: recv_def Let_def split: result.splits)
    obtain ok2 got2 c2 where r2: "ReadFull c1 (len body) = (ok2, got2, c2)"
      by (cases "ReadFull c1 (len body)") auto
    note f2 = ReadFull_facts [OF r2]
    from assms c r r1 True g r2 f1 f2 show ?thesis
      by (cases ok2) (auto simp add: recv_def Let_def split: result.splits)
  qed
qed

lemma recv_pools_ok:
  assumes "recv D m w = Returns (err, m', w')" and "pools_ok (pools w)"
  shows "pools_ok (pools w')"
proof -
  from assms(1) obtain c where c: "conn (sc w) = Some c" and r: "rw (sc w)"
    by (auto simp add: recv_def split: option.splits if_splits)
  obtain ok got c1 where r1: "ReadFull c 24 = (ok, got, c1)"
    by (cases "ReadFull c 24") auto
  show ?thesis
  proof (cases ok)
    case False
    with assms c r r1 show ?thesis
      by (auto simp add: recv_def)
  next
    case True
    let ?s1 = "(sc w)\<lparr>conn := Some c1, hdrBuf := fill (hdrBuf (sc w)) got\<rparr>"
    let ?m1 = "m\<lparr>header := parse_header (hdrBuf ?s1)\<rparr>"
    have nn: "0 \<le> uint (BodyLen (header ?m1))" by simp
    from getBodyBuffer_ok [OF assms(2) nn] obtain body ps1 where
      g: "getBodyBuffer (uint (BodyLen (header ?m1))) (pools w) = Returns (body, ps1)"
      and ok1: "pools_ok ps1"
      by blast
    obtain ok2 got2 c2 where r2: "ReadFull c1 (len body) = (ok2, got2, c2)"
      by (cases "ReadFull c1 (len body)") auto
    from assms(1) c r r1 True g r2 pools_ok_put [OF ok1] show ?thesis
      by (cases ok2) (auto simp add: recv_def Let_def split: result.splits)
  qed
qed

lemma resetConn_facts:
  "conn s \<noteq> None \<Longrightarrow> Status e = StatusNetworkError D \<Longrightarrow>
     conn (resetConn D e s) = None \<and> \<not> rw (resetConn D e s) \<and>
     closes (resetConn D e s) = closes s + 1"
  "Status e \<noteq> StatusNetworkError D \<Longrightarrow> resetConn D e s = s"
  by (auto simp add: resetConn_def)

lemma sendRecv_cases:
  assumes "sendRecv D m w = Returns (r, m', w')"
  shows "(\<exists>e m1 s1. send D m (sc w) = Returns (Some e, m1, s1) \<and> r = Some e \<and> m' = m1 \<and>
            w' = w\<lparr>sc := resetConn D e s1\<rparr>) \<or>
         (\<exists>m1 s1 w2. send D m (sc w) = Returns (None, m1, s1) \<and>
            recv D m1 (w\<lparr>sc := s1\<rparr>) = Returns (r, m', w2) \<and>
            w' = (case r of None \<Rightarrow> w2 | Some e \<Rightarrow> w2\<lparr>sc := resetConn D e (sc w2)\<rparr>))"
  using assms
  by (auto simp add: sendRecv_def split: result.splits option.splits)

lemma sendRecv_state:
  assumes "sendRecv D m w = Returns (r, m', w')"
  shows "(\<forall>e. r = Some e \<longrightarrow>
            (Status e = StatusNetworkError D \<longrightarrow>
               conn (sc w') = None \<and> \<not> rw (sc w') \<and> closes (sc w') = closes (sc w) + 1) \<and>
            (Status e \<noteq> StatusNetworkError D \<longrightarrow>
               conn (sc w') \<noteq> None \<and> rw (sc w') \<and> closes (sc w') = closes (sc w))) \<and>
         (r = None \<longrightarrow> conn (sc w') \<noteq> None \<and> rw (sc w') \<and> closes (sc w') = closes (sc w))"
proof -
  from sendRecv_cases [OF assms] show ?thesis
  proof (elim disjE exE conjE)
    fix e m1 s1
    assume s: "send D m (sc w) = Returns (Some e, m1, s1)" and r: "r = Some e"
      and w': "w' = w\<lparr>sc := resetConn D e s1\<rparr>"
    from send_Returns [OF s] have st: "Status e = StatusNetworkError D"
      and c: "conn s1 \<noteq> None" and cl: "closes s1 = closes (sc w)"
      by simp_all
    from resetConn_facts(1) [OF c st] st cl show ?thesis
      by (simp add: r w')
  next
    fix m1 s1 w2
    assume s: "send D m (sc w) = Returns (None, m1, s1)"
      and rc: "recv D m1 (w\<lparr>sc := s1\<rparr>) = Returns (r, m', w2)"
      and w': "w' = (case r of None \<Rightarrow> w2 | Some e \<Rightarrow> w2\<lparr>sc := resetConn D e (sc w2)\<rparr>)"
    from send_Returns [OF s] have cl: "closes s1 = closes (sc w)"
      by simp
    from recv_Returns [OF rc] obtain c' where c': "conn (sc w2) = Some c'" and rw2: "rw (sc w2)"
      and cl2: "closes (sc w2) = closes s1"
      by auto
    have c2: "conn (sc w2) \<noteq> None" using c' by simp
    show ?thesis
    proof (cases r)
      case None
      with w' c2 rw2 cl cl2 show ?thesis by simp
    next
      case (Some e)
      show ?thesis
      proof (cases "Status e = StatusNetworkError D")
        case True
        from resetConn_facts(1) [OF c2 True] Some cl cl2 True show ?thesis
          by (simp add: w')
      next
        case False
        from resetConn_facts(2) [OF False, of "sc w2"] Some cl cl2 c2 rw2 False show ?thesis
          by (simp add: w')
      qed
    qed
  qed
qed

lemma sendRecv_outcome:
  assumes "sendRecv D m w = Returns (r, m', w')"
  shows "torn_down D r w w' \<or> still_open w w'"
  using sendRecv_state [OF assms]
  by (cases r) (auto simp add: torn_down_def still_open_def)

lemma recv_status_frame:
  assumes "conn (sc w) = Some c" and "rw (sc w)" and "pools_ok (pools w)"
    and "rd c = put_header h @ body @ rest" and "length body = unat (BodyLen h)"
    and "ResvOrStatus h \<noteq> 0" and "unat (KeyLen h) \<le> length body"
  shows "\<exists>m2 w2. recv D m w = Returns (newError D (ResvOrStatus h), m2, w2) \<and> header m2 = h \<and>
           conn (sc w2) = Some (c\<lparr>rd := rest\<rparr>) \<and> rw (sc w2) \<and> closes (sc w2) = closes (sc w)"
proof -
  have ph: "parse_header (put_header h) = h"
    using parse_put_header [of h "[]"] by simp
  have lb: "length body = unat (BodyLen (parse_header (put_header h)))"
    using assms(5) by (simp add: ph)
  have rb: "recv_body D (m\<lparr>header := h\<rparr>) body (heap w) =
      Returns (newError D (ResvOrStatus h),
               m\<lparr>header := h, key := take (unat (KeyLen h)) body,
                 val := drop (unat (KeyLen h)) body\<rparr>, heap w)"
    using assms(6,7) by (simp add: recv_body_def recv_key_def)
  from recv_frame [OF assms(1,2,3,4) length_put_header lb, of D m] rb assms(2)
  show ?thesis
    unfolding ph by auto
qed

text \<open>
  C4.  An error that \<open>send\<close> returns is of status \<open>StatusNetworkError\<close>, and
  \<open>sendRecv\<close> returns it after the connection is closed exactly once and \<open>conn\<close> and
  \<open>rw\<close> are nil.  An error that \<open>recv\<close> returns after a \<open>send\<close> without error is
  returned by \<open>sendRecv\<close> too: if it is of status \<open>StatusNetworkError\<close>, after the
  connection is closed exactly once and \<open>conn\<close> and \<open>rw\<close> are nil; if it is of any
  other status, with the state as \<open>recv\<close> left it, the connection not closed and
  \<open>conn\<close> and \<open>rw\<close> still set.  Without an error nothing is closed either.  The
  class of an error is its status: \<open>resetConn\<close> has nothing else to go by.  The error
  of a server status is built by \<^verbatim>\<open>newError\<close>, which is declared outside this file;
  if \<^verbatim>\<open>newError\<close> builds no error of status \<open>StatusNetworkError\<close>, then for every
  response of a non-zero status that arrives in full and is decoded, \<open>sendRecv\<close>
  returns the error of that status, the response is consumed and the connection stays
  open.
\<close>

theorem sendRecv_teardown:
  "(\<forall>e m1 s1.
      send D m (sc w) = Returns (Some e, m1, s1) \<longrightarrow>
      Status e = StatusNetworkError D \<and>
      (\<exists>w'. sendRecv D m w = Returns (Some e, m1, w') \<and>
         conn (sc w') = None \<and> \<not> rw (sc w') \<and> closes (sc w') = closes (sc w) + 1)) \<and>
   (\<forall>m1 s1 e m2 w2.
      send D m (sc w) = Returns (None, m1, s1) \<and>
      recv D m1 (w\<lparr>sc := s1\<rparr>) = Returns (Some e, m2, w2) \<longrightarrow>
      (\<exists>w'. sendRecv D m w = Returns (Some e, m2, w') \<and>
         (Status e = StatusNetworkError D \<longrightarrow>
            conn (sc w') = None \<and> \<not> rw (sc w') \<and> closes (sc w') = closes (sc w) + 1) \<and>
         (Status e \<noteq> StatusNetworkError D \<longrightarrow>
            w' = w2 \<and> conn (sc w') \<noteq> None \<and> rw (sc w') \<and> closes (sc w') = closes (sc w)))) \<and>
   (\<forall>m1 s1 m2 w2.
      send D m (sc w) = Returns (None, m1, s1) \<and>
      recv D m1 (w\<lparr>sc := s1\<rparr>) = Returns (None, m2, w2) \<longrightarrow>
      sendRecv D m w = Returns (None, m2, w2) \<and>
      conn (sc w2) \<noteq> None \<and> rw (sc w2) \<and> closes (sc w2) = closes (sc w)) \<and>
   ((\<forall>st e. newError D st = Some e \<longrightarrow> Status e \<noteq> StatusNetworkError D) \<longrightarrow>
    (\<forall>m1 s1 c h body rest e.
       send D m (sc w) = Returns (None, m1, s1) \<and> conn s1 = Some c \<and> pools_ok (pools w) \<and>
       rd c = put_header h @ body @ rest \<and> length body = unat (BodyLen h) \<and>
       ResvOrStatus h \<noteq> 0 \<and> unat (KeyLen h) \<le> length body \<and>
       newError D (ResvOrStatus h) = Some e \<longrightarrow>
       (\<exists>m2 w'. sendRecv D m w = Returns (Some e, m2, w') \<and> header m2 = h \<and>
          conn (sc w') = Some (c\<lparr>rd := rest\<rparr>) \<and> rw (sc w') \<and>
          closes (sc w') = closes (sc w))))"
proof (intro conjI allI impI)
  fix e m1 s1
  assume s: "send D m (sc w) = Returns (Some e, m1, s1)"
  from send_Returns [OF s] have st: "Status e = StatusNetworkError D"
    and c: "conn s1 \<noteq> None" and cl: "closes s1 = closes (sc w)"
    by simp_all
  show "Status e = StatusNetworkError D" by (rule st)
  have "sendRecv D m w = Returns (Some e, m1, w\<lparr>sc := resetConn D e s1\<rparr>)"
    by (simp add: sendRecv_def s)
  with resetConn_facts(1) [OF c st] cl
  show "\<exists>w'. sendRecv D m w = Returns (Some e, m1, w') \<and>
         conn (sc w') = None \<and> \<not> rw (sc w') \<and> closes (sc w') = closes (sc w) + 1"
    by simp
next
  fix m1 s1 e m2 w2
  assume a: "send D m (sc w) = Returns (None, m1, s1) \<and>
      recv D m1 (w\<lparr>sc := s1\<rparr>) = Returns (Some e, m2, w2)"
  then have s: "send D m (sc w) = Returns (None, m1, s1)"
    and r: "recv D m1 (w\<lparr>sc := s1\<rparr>) = Returns (Some e, m2, w2)"
    by simp_all
  from send_Returns [OF s] have cl: "closes s1 = closes (sc w)"
    by simp
  from recv_Returns [OF r] obtain c' where c': "conn (sc w2) = Some c'" and rw2: "rw (sc w2)"
    and cl2: "closes (sc w2) = closes s1"
    by auto
  have c2: "conn (sc w2) \<noteq> None" using c' by simp
  have sr: "sendRecv D m w = Returns (Some e, m2, w2\<lparr>sc := resetConn D e (sc w2)\<rparr>)"
    by (simp add: sendRecv_def s r)
  show "\<exists>w'. sendRecv D m w = Returns (Some e, m2, w') \<and>
         (Status e = StatusNetworkError D \<longrightarrow>
            conn (sc w') = None \<and> \<not> rw (sc w') \<and> closes (sc w') = closes (sc w) + 1) \<and>
         (Status e \<noteq> StatusNetworkError D \<longrightarrow>
            w' = w2 \<and> conn (sc w') \<noteq> None \<and> rw (sc w') \<and> closes (sc w') = closes (sc w))"
  proof (cases "Status e = StatusNetworkError D")
    case True
    from resetConn_facts(1) [OF c2 True] True cl cl2 sr show ?thesis
      by simp
  next
    case False
    from resetConn_facts(2) [OF False, of "sc w2"] False c2 rw2 cl cl2 sr show ?thesis
      by simp
  qed
next
  fix m1 s1 m2 w2
  assume a: "send D m (sc w) = Returns (None, m1, s1) \<and>
      recv D m1 (w\<lparr>sc := s1\<rparr>) = Returns (None, m2, w2)"
  then have s: "send D m (sc w) = Returns (None, m1, s1)"
    and r: "recv D m1 (w\<lparr>sc := s1\<rparr>) = Returns (None, m2, w2)"
    by simp_all
  from send_Returns [OF s] have cl: "closes s1 = closes (sc w)"
    by simp
  from recv_Returns [OF r] obtain c' where c': "conn (sc w2) = Some c'" and rw2: "rw (sc w2)"
    and cl2: "closes (sc w2) = closes s1"
    by auto
  show "sendRecv D m w = Returns (None, m2, w2)"
    by (simp add: sendRecv_def s r)
  show "conn (sc w2) \<noteq> None" using c' by simp
  show "rw (sc w2)" by (rule rw2)
  show "closes (sc w2) = closes (sc w)" using cl cl2 by simp
next
  fix m1 s1 c h body rest e
  assume n: "\<forall>st e. newError D st = Some e \<longrightarrow> Status e \<noteq> StatusNetworkError D"
    and a: "send D m (sc w) = Returns (None, m1, s1) \<and> conn s1 = Some c \<and> pools_ok (pools w) \<and>
       rd c = put_header h @ body @ rest \<and> length body = unat (BodyLen h) \<and>
       ResvOrStatus h \<noteq> 0 \<and> unat (KeyLen h) \<le> length body \<and>
       newError D (ResvOrStatus h) = Some e"
  from a have s: "send D m (sc w) = Returns (None, m1, s1)" and c: "conn s1 = Some c"
    and p: "pools_ok (pools w)" and rd: "rd c = put_header h @ body @ rest"
    and lb: "length body = unat (BodyLen h)" and nz: "ResvOrStatus h \<noteq> 0"
    and kl: "unat (KeyLen h) \<le> length body" and ne: "newError D (ResvOrStatus h) = Some e"
    by simp_all
  from send_Returns [OF s] have cl: "closes s1 = closes (sc w)" and rw1: "rw s1"
    by simp_all
  have c1: "conn (sc (w\<lparr>sc := s1\<rparr>)) = Some c" and r1: "rw (sc (w\<lparr>sc := s1\<rparr>))"
    and p1: "pools_ok (pools (w\<lparr>sc := s1\<rparr>))"
    using c rw1 p by simp_all
  from recv_status_frame [OF c1 r1 p1 rd lb nz kl, of D m1] ne obtain m2 w2 where
    r: "recv D m1 (w\<lparr>sc := s1\<rparr>) = Returns (Some e, m2, w2)" and h2: "header m2 = h"
    and c2: "conn (sc w2) = Some (c\<lparr>rd := rest\<rparr>)" and rw2: "rw (sc w2)"
    and cl2: "closes (sc w2) = closes s1"
    by auto
  from n ne have nn: "Status e \<noteq> StatusNetworkError D"
    by blast
  have "sendRecv D m w = Returns (Some e, m2, w2\<lparr>sc := resetConn D e (sc w2)\<rparr>)"
    by (simp add: sendRecv_def s r)
  with resetConn_facts(2) [OF nn, of "sc w2"] have "sendRecv D m w = Returns (Some e, m2, w2)"
    by simp
  with h2 c2 rw2 cl cl2
  show "\<exists>m2 w'. sendRecv D m w = Returns (Some e, m2, w') \<and> header m2 = h \<and>
          conn (sc w') = Some (c\<lparr>rd := rest\<rparr>) \<and> rw (sc w') \<and> closes (sc w') = closes (sc w)"
    by auto
qed

lemma send_zero_msg_any:
  "\<exists>m1 s1. send D zero_msg (open_conn input) = Returns (None, m1, s1) \<and>
     conn s1 = Some \<lparr>rd = input, wr = put_header (header m1), wfail = None\<rparr> \<and> rw s1 \<and>
     closes s1 = 0"
proof -
  have u: "list_all is_uint (elts (iextras zero_msg))"
    by (simp add: zero_msg_def nil_slice_def)
  have c: "conn (open_conn input) = Some \<lparr>rd = input, wr = [], wfail = None\<rparr>"
    and r: "rw (open_conn input)"
    by (simp_all add: open_conn_def)
  from send_nofail [OF u c _ r, of D] show ?thesis
    by (simp add: zero_msg_def nil_slice_def extras_bytes_def open_conn_def)
qed

lemma send_stalled:
  "\<exists>m1 s1. send D zero_msg stalled_conn = Returns (Some (wrapError (StatusNetworkError D)), m1, s1)"
  by (simp add: send_def sizeOfExtras_def Let_def write_frame_def rw_Write_def stalled_conn_def
      open_conn_def zero_msg_def nil_slice_def)

lemma strict_decls_newError:
  "\<forall>st e. newError strict_decls st = Some e \<longrightarrow> Status e \<noteq> StatusNetworkError strict_decls"
  by (auto simp add: strict_decls_def example_decls_def split: if_splits)

text \<open>
  C4 at three concrete inputs: a connection on which the first write fails, a stream that
  ends before the response, and a response of status 1.
\<close>

theorem sendRecv_teardown_witness:
  "(\<exists>e m' w'. sendRecv example_decls zero_msg (world_of stalled_conn) = Returns (Some e, m', w') \<and>
      Status e = StatusNetworkError example_decls \<and>
      conn (sc w') = None \<and> \<not> rw (sc w') \<and> closes (sc w') = 1) \<and>
   (\<exists>e m' w'. sendRecv example_decls zero_msg (world_of (open_conn [])) = Returns (Some e, m', w') \<and>
      Status e = StatusNetworkError example_decls \<and>
      conn (sc w') = None \<and> \<not> rw (sc w') \<and> closes (sc w') = 1) \<and>
   (\<exists>m' w'. sendRecv strict_decls zero_msg (world_of (open_conn (put_header not_found_header)))
        = Returns (Some \<lparr>Status = 1\<rparr>, m', w') \<and>
      conn (sc w') \<noteq> None \<and> rw (sc w') \<and> closes (sc w') = 0)"
proof (intro conjI)
  let ?w = "world_of stalled_conn"
  from send_stalled [of example_decls] obtain m1 s1 where
    s: "send example_decls zero_msg (sc ?w)
          = Returns (Some (wrapError (StatusNetworkError example_decls)), m1, s1)"
    by (auto simp add: world_of_def)
  from sendRecv_teardown [of example_decls zero_msg ?w, THEN conjunct1, rule_format, OF s]
  show "\<exists>e m' w'. sendRecv example_decls zero_msg ?w = Returns (Some e, m', w') \<and>
      Status e = StatusNetworkError example_decls \<and>
      conn (sc w') = None \<and> \<not> rw (sc w') \<and> closes (sc w') = 1"
    by (auto simp add: world_of_def stalled_conn_def open_conn_def)
next
  let ?w = "world_of (open_conn [])"
  from send_zero_msg_any [of example_decls "[]"] obtain m1 s1 where
    s: "send example_decls zero_msg (sc ?w) = Returns (None, m1, s1)"
    and c: "conn s1 = Some \<lparr>rd = [], wr = put_header (header m1), wfail = None\<rparr>" and r: "rw s1"
    by (auto simp add: world_of_def)
  have c': "conn (sc (?w\<lparr>sc := s1\<rparr>)) = Some \<lparr>rd = [], wr = put_header (header m1), wfail = None\<rparr>"
    and r': "rw (sc (?w\<lparr>sc := s1\<rparr>))"
    using c r by simp_all
  have "length (rd \<lparr>rd = [], wr = put_header (header m1), wfail = None\<rparr>) < 24"
    by simp
  from recv_short_header [OF c' r' this, of example_decls m1] obtain w2 where
    rc: "recv example_decls m1 (?w\<lparr>sc := s1\<rparr>)
           = Returns (Some (wrapError (StatusNetworkError example_decls)), m1, w2)"
    by blast
  from sendRecv_teardown [of example_decls zero_msg ?w, THEN conjunct2, THEN conjunct1,
      rule_format, OF conjI [OF s rc]]
  show "\<exists>e m' w'. sendRecv example_decls zero_msg ?w = Returns (Some e, m', w') \<and>
      Status e = StatusNetworkError example_decls \<and>
      conn (sc w') = None \<and> \<not> rw (sc w') \<and> closes (sc w') = 1"
    by (auto simp add: wrapError_def world_of_def open_conn_def)
next
  let ?in = "put_header not_found_header"
  let ?w = "world_of (open_conn ?in)"
  from send_zero_msg_any [of strict_decls ?in] obtain m1 s1 where
    s: "send strict_decls zero_msg (sc ?w) = Returns (None, m1, s1)"
    and c: "conn s1 = Some \<lparr>rd = ?in, wr = put_header (header m1), wfail = None\<rparr>"
    by (auto simp add: world_of_def)
  let ?c = "\<lparr>rd = ?in, wr = put_header (header m1), wfail = None\<rparr>"
  have h: "send strict_decls zero_msg (sc ?w) = Returns (None, m1, s1) \<and> conn s1 = Some ?c \<and>
       pools_ok (pools ?w) \<and>
       rd ?c = put_header not_found_header @ [] @ [] \<and>
       length ([] :: byte list) = unat (BodyLen not_found_header) \<and>
       ResvOrStatus not_found_header \<noteq> 0 \<and>
       unat (KeyLen not_found_header) \<le> length ([] :: byte list) \<and>
       newError strict_decls (ResvOrStatus not_found_header) = Some \<lparr>Status = 1\<rparr>"
    using s c
    by (simp add: world_of_def pools_ok_empty not_found_header_def zero_header_def
        strict_decls_def example_decls_def)
  note t = sendRecv_teardown [of strict_decls zero_msg ?w, THEN conjunct2, THEN conjunct2,
      THEN conjunct2]
  from mp [OF t strict_decls_newError, rule_format, OF h]
  show "\<exists>m' w'. sendRecv strict_decls zero_msg ?w = Returns (Some \<lparr>Status = 1\<rparr>, m', w') \<and>
      conn (sc w') \<noteq> None \<and> rw (sc w') \<and> closes (sc w') = 0"
    by (auto simp add: world_of_def open_conn_def)
qed

section \<open>Properties of the statistics exchange\<close>

declare stats_loop.simps [simp del]

lemma stats_loop_error:
  "recv D m w = Returns (Some e, m1, w1) \<Longrightarrow>
     stats_loop D m w acc = Returns (acc, Some e, m1, w1\<lparr>sc := resetConn D e (sc w1)\<rparr>)"
  by (subst stats_loop.simps) simp

lemma stats_loop_done:
  "recv D m w = Returns (None, m1, w1) \<Longrightarrow> KeyLen (header m1) = 0 \<Longrightarrow>
     stats_loop D m w acc = Returns (acc, None, m1, w1)"
  by (subst stats_loop.simps) simp

lemma stats_loop_step:
  "recv D m w = Returns (None, m1, w1) \<Longrightarrow> KeyLen (header m1) \<noteq> 0 \<Longrightarrow>
     stats_loop D m w acc = stats_loop D m1 w1 (acc(key m1 \<mapsto> val m1))"
  by (subst stats_loop.simps) simp

lemma recv_response:
  assumes "conn (sc w) = Some c" and "rw (sc w)" and "pools_ok (pools w)"
    and "elts (oextras m) = []" and "newError D 0 = None" and "wf_resp r"
    and "rd c = response r @ rest"
  shows "\<exists>m1 w1. recv D m w = Returns (None, m1, w1) \<and>
           key m1 = resp_key r \<and> val m1 = resp_val r \<and>
           unat (KeyLen (header m1)) = length (resp_key r) \<and>
           oextras m1 = oextras m \<and>
           conn (sc w1) = Some (c\<lparr>rd := rest\<rparr>) \<and> rw (sc w1) \<and> pools_ok (pools w1) \<and>
           closes (sc w1) = closes (sc w)"
proof -
  obtain h x k v where r: "r = (h, x, k, v)"
    by (cases r) auto
  let ?H = "resp_header r"
  from assms(6) have lx: "length x \<le> 255" and lk: "length k \<le> 65535"
    and lt: "length x + length k + length v < 2 ^ 32"
    by (simp_all add: wf_resp_def r)
  have el: "unat (ExtraLen ?H) = length x" and kl: "unat (KeyLen ?H) = length k"
    and st: "ResvOrStatus ?H = 0"
    using lx lk by (simp_all add: resp_header_def r unat_of_nat)
  have "unat (word_of_nat (length x + length k + length v) :: 32 word)
          = length x + length k + length v"
    using lt by (intro of_nat_inverse [OF refl]) simp
  then have bl: "unat (BodyLen ?H) = length (x @ k @ v)"
    by (simp add: resp_header_def r)
  have ph: "parse_header (put_header ?H) = ?H"
    using parse_put_header [of ?H "[]"] by simp
  have rd: "rd c = put_header ?H @ (x @ k @ v) @ rest"
    using assms(7) by (simp add: response_def r)
  have lb: "length (x @ k @ v) = unat (BodyLen (parse_header (put_header ?H)))"
    using bl by (simp add: ph)
  have rb: "recv_body D (m\<lparr>header := ?H\<rparr>) (x @ k @ v) (heap w) =
      Returns (None, m\<lparr>header := ?H, key := k, val := v\<rparr>, heap w)"
  proof (cases "x = []")
    case True
    with el have "ExtraLen ?H = 0"
      by (simp add: unat_eq_0)
    with True assms(5) kl st show ?thesis
      by (simp add: recv_body_def recv_key_def)
  next
    case False
    with el have "0 < ExtraLen ?H"
      by (simp add: word_gt_0 flip: unat_eq_0)
    with assms(4,5) el kl st show ?thesis
      by (simp add: recv_body_def recv_key_def Let_def)
  qed
  from recv_frame [OF assms(1,2,3) rd length_put_header lb, of D m] rb kl assms(2)
  show ?thesis
    unfolding ph by (auto simp add: r resp_key_def resp_val_def)
qed

lemma collect_Cons: "collect (r # rs) acc = collect rs (acc(resp_key r \<mapsto> resp_val r))"
  by (simp add: collect_def)

lemma stats_loop_collects:
  assumes "list_all wf_resp rs" and "list_all (\<lambda>r. resp_key r \<noteq> []) rs"
    and "wf_resp t" and "resp_key t = []"
    and "elts (oextras m) = []" and "newError D 0 = None"
    and "conn (sc w) = Some c" and "rw (sc w)" and "pools_ok (pools w)"
    and "rd c = concat (map response rs) @ response t @ rest"
  shows "\<exists>m' w'. stats_loop D m w acc = Returns (collect rs acc, None, m', w') \<and>
           conn (sc w') = Some (c\<lparr>rd := rest\<rparr>) \<and> rw (sc w') \<and>
           closes (sc w') = closes (sc w)"
  using assms
proof (induction rs arbitrary: m w c acc)
  case Nil
  then have rd: "rd c = response t @ rest" by simp
  from recv_response [OF Nil.prems(7,8,9,5,6,3) rd] obtain m1 w1 where
    r: "recv D m w = Returns (None, m1, w1)"
    and k: "unat (KeyLen (header m1)) = length (resp_key t)"
    and c1: "conn (sc w1) = Some (c\<lparr>rd := rest\<rparr>)" "rw (sc w1)" "closes (sc w1) = closes (sc w)"
    by blast
  from k Nil.prems(4) have "KeyLen (header m1) = 0"
    by (simp add: unat_eq_0)
  from stats_loop_done [OF r this, of acc] c1 show ?case
    by (simp add: collect_def)
next
  case (Cons r rs)
  let ?rest = "concat (map response rs) @ response t @ rest"
  from Cons.prems have wr: "wf_resp r" and wrs: "list_all wf_resp rs"
    and kr: "resp_key r \<noteq> []" and krs: "list_all (\<lambda>r. resp_key r \<noteq> []) rs"
    and rd: "rd c = response r @ ?rest"
    by simp_all
  from recv_response [OF Cons.prems(7,8,9,5,6) wr rd] obtain m1 w1 where
    r: "recv D m w = Returns (None, m1, w1)"
    and kv: "key m1 = resp_key r" "val m1 = resp_val r"
    and k: "unat (KeyLen (header m1)) = length (resp_key r)"
    and o: "oextras m1 = oextras m"
    and c1: "conn (sc w1) = Some (c\<lparr>rd := ?rest\<rparr>)" and rw1: "rw (sc w1)"
    and p1: "pools_ok (pools w1)" and cl: "closes (sc w1) = closes (sc w)"
    by blast
  from k kr have nz: "KeyLen (header m1) \<noteq> 0"
    by (auto simp flip: unat_eq_0)
  have o1: "elts (oextras m1) = []"
    using o Cons.prems(5) by simp
  have rd1: "rd (c\<lparr>rd := ?rest\<rparr>) = concat (map response rs) @ response t @ rest"
    by simp
  from Cons.IH [OF wrs krs Cons.prems(3,4) o1 Cons.prems(6) c1 rw1 p1 rd1,
      of "acc(key m1 \<mapsto> val m1)"]
  obtain m' w' where
    l: "stats_loop D m1 w1 (acc(key m1 \<mapsto> val m1)) =
          Returns (collect rs (acc(key m1 \<mapsto> val m1)), None, m', w')"
    and c0: "conn (sc w') = Some (c\<lparr>rd := ?rest, rd := rest\<rparr>)"
    and c': "rw (sc w')" "closes (sc w') = closes (sc w1)"
    by blast
  from c0 have "conn (sc w') = Some (c\<lparr>rd := rest\<rparr>)"
    by simp
  with stats_loop_step [OF r nz, of acc] l c' cl show ?case
    by (simp add: collect_Cons kv)
qed

lemma stats_loop_prefix:
  assumes "list_all wf_resp rs" and "list_all (\<lambda>r. resp_key r \<noteq> []) rs"
    and "elts (oextras m) = []" and "newError D 0 = None"
    and "conn (sc w) = Some c" and "rw (sc w)" and "pools_ok (pools w)"
    and "rd c = concat (map response rs) @ tail"
  shows "\<exists>mk wk. stats_loop D m w acc = stats_loop D mk wk (collect rs acc) \<and>
           elts (oextras mk) = [] \<and>
           conn (sc wk) = Some (c\<lparr>rd := tail\<rparr>) \<and> rw (sc wk) \<and> pools_ok (pools wk) \<and>
           closes (sc wk) = closes (sc w)"
  using assms
proof (induction rs arbitrary: m w c acc)
  case Nil
  then have "c\<lparr>rd := tail\<rparr> = c" by simp
  with Nil.prems have "stats_loop D m w acc = stats_loop D m w (collect [] acc) \<and>
      elts (oextras m) = [] \<and> conn (sc w) = Some (c\<lparr>rd := tail\<rparr>) \<and> rw (sc w) \<and>
      pools_ok (pools w) \<and> closes (sc w) = closes (sc w)"
    by (simp add: collect_def)
  then show ?case
    by blast
next
  case (Cons r rs)
  let ?rest = "concat (map response rs) @ tail"
  from Cons.prems have wr: "wf_resp r" and wrs: "list_all wf_resp rs"
    and kr: "resp_key r \<noteq> []" and krs: "list_all (\<lambda>r. resp_key r \<noteq> []) rs"
    and rd: "rd c = response r @ ?rest"
    by simp_all
  from recv_response [OF Cons.prems(5,6,7,3,4) wr rd] obtain m1 w1 where
    r: "recv D m w = Returns (None, m1, w1)"
    and kv: "key m1 = resp_key r" "val m1 = resp_val r"
    and k: "unat (KeyLen (header m1)) = length (resp_key r)"
    and o: "oextras m1 = oextras m"
    and c1: "conn (sc w1) = Some (c\<lparr>rd := ?rest\<rparr>)" and rw1: "rw (sc w1)"
    and p1: "pools_ok (pools w1)" and cl: "closes (sc w1) = closes (sc w)"
    by blast
  from k kr have nz: "KeyLen (header m1) \<noteq> 0"
    by (auto simp flip: unat_eq_0)
  have o1: "elts (oextras m1) = []"
    using o Cons.prems(3) by simp
  have rd1: "rd (c\<lparr>rd := ?rest\<rparr>) = concat (map response rs) @ tail"
    by simp
  from Cons.IH [OF wrs krs o1 Cons.prems(4) c1 rw1 p1 rd1, of "acc(key m1 \<mapsto> val m1)"]
  obtain mk wk where
    l: "stats_loop D m1 w1 (acc(key m1 \<mapsto> val m1)) =
          stats_loop D mk wk (collect rs (acc(key m1 \<mapsto> val m1)))"
    and ok: "elts (oextras mk) = []"
    and c0: "conn (sc wk) = Some (c\<lparr>rd := ?rest, rd := tail\<rparr>)"
    and c': "rw (sc wk)" "pools_ok (pools wk)" "closes (sc wk) = closes (sc w1)"
    by blast
  from c0 have "conn (sc wk) = Some (c\<lparr>rd := tail\<rparr>)"
    by simp
  with stats_loop_step [OF r nz, of acc] l ok c' cl show ?case
    by (auto simp add: collect_Cons kv)
qed

text \<open>
  C8.  Let the request be sent without error, and let the connection then deliver a
  sequence of well-formed responses of status 0 with non-empty keys, followed by \<open>tail\<close>.
  If \<open>tail\<close> starts with a well-formed response of status 0 with an empty key,
  \<open>sendRecvStats\<close> returns no error and the map that holds the pairs of the responses
  before the terminating one, stored in order; the terminating response is consumed and
  is not stored, what follows it on the stream is not read, and the connection is not
  closed.  In any case the loop comes, after those responses, to a call of \<open>recv\<close> on
  the connection that has \<open>tail\<close> left to deliver, and whatever error that call
  returns, \<open>sendRecvStats\<close> returns it together with the map of the pairs collected so
  far: if the error is of status \<open>StatusNetworkError\<close>, after the connection is closed
  exactly once and \<open>conn\<close> and \<open>rw\<close> are nil; if it is of another status, with the
  connection open.  An error of \<open>send\<close> is returned with the nil map after the
  connection is closed exactly once.
\<close>

theorem sendRecvStats_collects:
  assumes "list_all is_uint (elts (iextras m))" and "elts (oextras m) = []"
    and "newError D 0 = None"
    and "conn (sc w) = Some c" and "wfail c = None" and "rw (sc w)" and "pools_ok (pools w)"
    and "list_all wf_resp rs" and "list_all (\<lambda>r. resp_key r \<noteq> []) rs"
    and "rd c = concat (map response rs) @ tail"
  shows "(\<forall>t rest. wf_resp t \<and> resp_key t = [] \<and> tail = response t @ rest \<longrightarrow>
            (\<exists>m' w' c'. sendRecvStats D m w = Returns (Some (collect rs Map.empty), None, m', w') \<and>
               conn (sc w') = Some c' \<and> rd c' = rest \<and> rw (sc w') \<and>
               closes (sc w') = closes (sc w))) \<and>
         (\<exists>mk wk ck. elts (oextras mk) = [] \<and>
            conn (sc wk) = Some ck \<and> rd ck = tail \<and> rw (sc wk) \<and>
            pools_ok (pools wk) \<and> closes (sc wk) = closes (sc w) \<and>
            (\<forall>e m' w2. recv D mk wk = Returns (Some e, m', w2) \<longrightarrow>
               (\<exists>w'. sendRecvStats D m w = Returns (Some (collect rs Map.empty), Some e, m', w') \<and>
                  (Status e = StatusNetworkError D \<longrightarrow>
                     conn (sc w') = None \<and> \<not> rw (sc w') \<and> closes (sc w') = closes (sc w) + 1) \<and>
                  (Status e \<noteq> StatusNetworkError D \<longrightarrow>
                     w' = w2 \<and> conn (sc w') \<noteq> None \<and> rw (sc w') \<and>
                     closes (sc w') = closes (sc w))))) \<and>
         (\<forall>w0 e m1 s1. send D m (sc w0) = Returns (Some e, m1, s1) \<longrightarrow>
            (\<exists>w'. sendRecvStats D m w0 = Returns (None, Some e, m1, w') \<and>
               conn (sc w') = None \<and> \<not> rw (sc w') \<and> closes (sc w') = closes (sc w0) + 1))"
proof (intro conjI)
  let ?H = "sent_header D m (sc w) (of_nat (length (extras_bytes (elts (iextras m)))))"
  let ?c1 = "c\<lparr>wr := wr c @ put_header ?H @ extras_bytes (elts (iextras m)) @ key m @ val m\<rparr>"
  let ?s1 = "(sc w)\<lparr>opq := opq (sc w) + 1, hdrBuf := put_header ?H, conn := Some ?c1\<rparr>"
  let ?m1 = "m\<lparr>header := ?H\<rparr>"
  let ?w1 = "w\<lparr>sc := ?s1\<rparr>"
  have snd: "send D m (sc w) = Returns (None, ?m1, ?s1)"
    using send_nofail [OF assms(1,4,5,6), of D] by simp
  have o1: "elts (oextras ?m1) = []" using assms(2) by simp
  have c1: "conn (sc ?w1) = Some ?c1" and rw1: "rw (sc ?w1)" and p1: "pools_ok (pools ?w1)"
    and rd1: "rd ?c1 = concat (map response rs) @ tail"
    and cl1: "closes (sc ?w1) = closes (sc w)"
    using assms(6,7,10) by simp_all
  show "\<forall>t rest. wf_resp t \<and> resp_key t = [] \<and> tail = response t @ rest \<longrightarrow>
            (\<exists>m' w' c'. sendRecvStats D m w = Returns (Some (collect rs Map.empty), None, m', w') \<and>
               conn (sc w') = Some c' \<and> rd c' = rest \<and> rw (sc w') \<and>
               closes (sc w') = closes (sc w))"
  proof (intro allI impI)
    fix t rest
    assume a: "wf_resp t \<and> resp_key t = [] \<and> tail = response t @ rest"
    then have wt: "wf_resp t" and kt: "resp_key t = []"
      and rd2: "rd ?c1 = concat (map response rs) @ response t @ rest"
      using rd1 by simp_all
    from stats_loop_collects [OF assms(8,9) wt kt o1 assms(3) c1 rw1 p1 rd2, of Map.empty]
    obtain m' w' where
      l: "stats_loop D ?m1 ?w1 Map.empty = Returns (collect rs Map.empty, None, m', w')"
      and c': "conn (sc w') = Some (?c1\<lparr>rd := rest\<rparr>)" and rw': "rw (sc w')"
      and cl: "closes (sc w') = closes (sc ?w1)"
      by blast
    have "sendRecvStats D m w = Returns (Some (collect rs Map.empty), None, m', w')"
      by (simp add: sendRecvStats_def snd l)
    with c' rw' cl
    show "\<exists>m' w' c'. sendRecvStats D m w = Returns (Some (collect rs Map.empty), None, m', w') \<and>
           conn (sc w') = Some c' \<and> rd c' = rest \<and> rw (sc w') \<and>
           closes (sc w') = closes (sc w)"
      by simp
  qed
  from stats_loop_prefix [OF assms(8,9) o1 assms(3) c1 rw1 p1 rd1, of Map.empty]
  obtain mk wk where
    l: "stats_loop D ?m1 ?w1 Map.empty = stats_loop D mk wk (collect rs Map.empty)"
    and ok: "elts (oextras mk) = []"
    and ck: "conn (sc wk) = Some (?c1\<lparr>rd := tail\<rparr>)" and rwk: "rw (sc wk)"
    and pk: "pools_ok (pools wk)" and clk: "closes (sc wk) = closes (sc ?w1)"
    by blast
  have err: "\<exists>w'. sendRecvStats D m w = Returns (Some (collect rs Map.empty), Some e, m', w') \<and>
      (Status e = StatusNetworkError D \<longrightarrow>
         conn (sc w') = None \<and> \<not> rw (sc w') \<and> closes (sc w') = closes (sc w) + 1) \<and>
      (Status e \<noteq> StatusNetworkError D \<longrightarrow>
         w' = w2 \<and> conn (sc w') \<noteq> None \<and> rw (sc w') \<and> closes (sc w') = closes (sc w))"
    if r: "recv D mk wk = Returns (Some e, m', w2)" for e m' w2
  proof -
    from recv_Returns [OF r] obtain c2 where c2: "conn (sc w2) = Some c2" and rw2: "rw (sc w2)"
      and cl2: "closes (sc w2) = closes (sc wk)"
      by auto
    have n2: "conn (sc w2) \<noteq> None" using c2 by simp
    have sr: "sendRecvStats D m w =
        Returns (Some (collect rs Map.empty), Some e, m', w2\<lparr>sc := resetConn D e (sc w2)\<rparr>)"
      by (simp add: sendRecvStats_def snd l stats_loop_error [OF r])
    show ?thesis
    proof (cases "Status e = StatusNetworkError D")
      case True
      from resetConn_facts(1) [OF n2 True] True cl2 clk sr show ?thesis
        by simp
    next
      case False
      from resetConn_facts(2) [OF False, of "sc w2"] False n2 rw2 cl2 clk sr show ?thesis
        by simp
    qed
  qed
  from ok ck rwk pk clk err
  show "\<exists>mk wk ck. elts (oextras mk) = [] \<and>
            conn (sc wk) = Some ck \<and> rd ck = tail \<and> rw (sc wk) \<and>
            pools_ok (pools wk) \<and> closes (sc wk) = closes (sc w) \<and>
            (\<forall>e m' w2. recv D mk wk = Returns (Some e, m', w2) \<longrightarrow>
               (\<exists>w'. sendRecvStats D m w = Returns (Some (collect rs Map.empty), Some e, m', w') \<and>
                  (Status e = StatusNetworkError D \<longrightarrow>
                     conn (sc w') = None \<and> \<not> rw (sc w') \<and> closes (sc w') = closes (sc w) + 1) \<and>
                  (Status e \<noteq> StatusNetworkError D \<longrightarrow>
                     w' = w2 \<and> conn (sc w') \<noteq> None \<and> rw (sc w') \<and>
                     closes (sc w') = closes (sc w))))"
    by (intro exI [of _ mk] exI [of _ wk] exI [of _ "?c1\<lparr>rd := tail\<rparr>"]) simp
  show "\<forall>w0 e m1 s1. send D m (sc w0) = Returns (Some e, m1, s1) \<longrightarrow>
          (\<exists>w'. sendRecvStats D m w0 = Returns (None, Some e, m1, w') \<and>
             conn (sc w') = None \<and> \<not> rw (sc w') \<and> closes (sc w') = closes (sc w0) + 1)"
  proof (intro allI impI)
    fix w0 :: world and e m1 s1
    assume s: "send D m (sc w0) = Returns (Some e, m1, s1)"
    from send_Returns [OF s] have st: "Status e = StatusNetworkError D"
      and cn: "conn s1 \<noteq> None" and cl: "closes s1 = closes (sc w0)"
      by simp_all
    have "sendRecvStats D m w0 = Returns (None, Some e, m1, w0\<lparr>sc := resetConn D e s1\<rparr>)"
      by (simp add: sendRecvStats_def s)
    with resetConn_facts(1) [OF cn st] cl
    show "\<exists>w'. sendRecvStats D m w0 = Returns (None, Some e, m1, w') \<and>
             conn (sc w') = None \<and> \<not> rw (sc w') \<and> closes (sc w') = closes (sc w0) + 1"
      by simp
  qed
qed

text \<open>
  C8 at two concrete inputs: one statistics response and the terminating response; and
  one statistics response after which the stream ends.
\<close>

theorem sendRecvStats_collects_witness:
  "(\<exists>m' w'. sendRecvStats example_decls zero_msg
        (world_of (open_conn (response stat_pid @ response stat_end)))
      = Returns (Some (collect [stat_pid] Map.empty), None, m', w') \<and>
      rw (sc w') \<and> closes (sc w') = 0) \<and>
   (\<exists>e m' w'. sendRecvStats example_decls zero_msg (world_of (open_conn (response stat_pid)))
      = Returns (Some (collect [stat_pid] Map.empty), Some e, m', w') \<and>
      Status e = StatusNetworkError example_decls \<and>
      conn (sc w') = None \<and> \<not> rw (sc w') \<and> closes (sc w') = 1) \<and>
   collect [stat_pid] Map.empty [0x70, 0x69, 0x64] = Some [0x31] \<and>
   collect [stat_pid] Map.empty [] = None"
proof (intro conjI)
  let ?in = "response stat_pid @ response stat_end"
  let ?w = "world_of (open_conn ?in)"
  let ?c = "\<lparr>rd = ?in, wr = [], wfail = None\<rparr>"
  have u: "list_all is_uint (elts (iextras zero_msg))" and o: "elts (oextras zero_msg) = []"
    and ne: "newError example_decls 0 = None"
    and c: "conn (sc ?w) = Some ?c" and wf: "wfail ?c = None" and rw: "rw (sc ?w)"
    and p: "pools_ok (pools ?w)"
    and wrs: "list_all wf_resp [stat_pid]" and krs: "list_all (\<lambda>r. resp_key r \<noteq> []) [stat_pid]"
    and rd: "rd ?c = concat (map response [stat_pid]) @ response stat_end @ []"
    and t: "wf_resp stat_end \<and> resp_key stat_end = [] \<and>
            response stat_end @ [] = response stat_end @ []"
    by (simp_all add: zero_msg_def nil_slice_def example_decls_def world_of_def open_conn_def
        pools_ok_empty wf_resp_def resp_key_def stat_pid_def stat_end_def)
  from sendRecvStats_collects [OF u o ne c wf rw p wrs krs rd, THEN conjunct1, rule_format, OF t]
  have "\<exists>m' w' c'. sendRecvStats example_decls zero_msg ?w
          = Returns (Some (collect [stat_pid] Map.empty), None, m', w') \<and>
        conn (sc w') = Some c' \<and> rd c' = [] \<and> rw (sc w') \<and> closes (sc w') = closes (sc ?w)"
    by blast
  moreover have "closes (sc ?w) = 0"
    by (simp add: world_of_def open_conn_def)
  ultimately show "\<exists>m' w'. sendRecvStats example_decls zero_msg ?w
      = Returns (Some (collect [stat_pid] Map.empty), None, m', w') \<and>
      rw (sc w') \<and> closes (sc w') = 0"
    by auto
next
  let ?in = "response stat_pid"
  let ?w = "world_of (open_conn ?in)"
  let ?c = "\<lparr>rd = ?in, wr = [], wfail = None\<rparr>"
  have u: "list_all is_uint (elts (iextras zero_msg))" and o: "elts (oextras zero_msg) = []"
    and ne: "newError example_decls 0 = None"
    and c: "conn (sc ?w) = Some ?c" and wf: "wfail ?c = None" and rw: "rw (sc ?w)"
    and p: "pools_ok (pools ?w)"
    and wrs: "list_all wf_resp [stat_pid]" and krs: "list_all (\<lambda>r. resp_key r \<noteq> []) [stat_pid]"
    and rd: "rd ?c = concat (map response [stat_pid]) @ []"
    by (simp_all add: zero_msg_def nil_slice_def example_decls_def world_of_def open_conn_def
        pools_ok_empty wf_resp_def resp_key_def stat_pid_def)
  from sendRecvStats_collects [OF u o ne c wf rw p wrs krs rd, THEN conjunct2, THEN conjunct1]
  obtain mk wk ck where ck: "conn (sc wk) = Some ck" and rk: "rd ck = []" and rwk: "rw (sc wk)"
    and clk: "closes (sc wk) = closes (sc ?w)"
    and err: "\<And>e m' w2. recv example_decls mk wk = Returns (Some e, m', w2) \<Longrightarrow>
      \<exists>w'. sendRecvStats example_decls zero_msg ?w
             = Returns (Some (collect [stat_pid] Map.empty), Some e, m', w') \<and>
        (Status e = StatusNetworkError example_decls \<longrightarrow>
           conn (sc w') = None \<and> \<not> rw (sc w') \<and> closes (sc w') = closes (sc ?w) + 1) \<and>
        (Status e \<noteq> StatusNetworkError example_decls \<longrightarrow>
           w' = w2 \<and> conn (sc w') \<noteq> None \<and> rw (sc w') \<and> closes (sc w') = closes (sc ?w))"
    by blast
  have "length (rd ck) < 24" using rk by simp
  from err [OF recv_short_header [OF ck rwk this, of example_decls mk]]
  show "\<exists>e m' w'. sendRecvStats example_decls zero_msg ?w
      = Returns (Some (collect [stat_pid] Map.empty), Some e, m', w') \<and>
      Status e = StatusNetworkError example_decls \<and>
      conn (sc w') = None \<and> \<not> rw (sc w') \<and> closes (sc w') = 1"
    by (auto simp add: wrapError_def world_of_def open_conn_def)
next
  show "collect [stat_pid] Map.empty [0x70, 0x69, 0x64] = Some [0x31]"
    and "collect [stat_pid] Map.empty [] = None"
    by (simp_all add: collect_def resp_key_def resp_val_def stat_pid_def)
qed

section \<open>Properties of connecting\<close>

lemma auth_error_origin:
  assumes "auth D w = Returns (Some e, w')"
  shows "(username (sc w) \<noteq> [] \<or> password (sc w) \<noteq> []) \<and>
         ((\<exists>s. authList D w = Returns (s, Some e, w')) \<or>
          (\<exists>s. authList D w = Returns (s, None, w') \<and> \<not> Contains s PLAIN \<and>
               Status e = StatusAuthUnknown D) \<or>
          (\<exists>s w1. authList D w = Returns (s, None, w1) \<and> Contains s PLAIN \<and>
               authPlain D w1 = Returns (Some e, w')))"
  using assms
  by (auto simp add: auth_def split: if_splits result.splits option.splits)

lemma authList_outcome:
  assumes "authList D w = Returns (s, r, w1)"
  shows "torn_down D r w w1 \<or> still_open w w1"
proof -
  from assms obtain m' where
    "sendRecv D (zero_msg\<lparr>header := zero_header\<lparr>Op := opAuthList D\<rparr>\<rparr>) w = Returns (r, m', w1)"
    by (auto simp add: authList_def split: result.splits)
  then show ?thesis by (rule sendRecv_outcome)
qed

lemma authPlain_outcome:
  assumes "authPlain D w = Returns (r, w1)"
  shows "torn_down D r w w1 \<or> still_open w w1"
proof -
  from assms obtain m' where
    "sendRecv D (zero_msg\<lparr>header := zero_header\<lparr>Op := opAuthStart D\<rparr>, key := PLAIN,
        val := 0 # username (sc w) @ 0 # password (sc w)\<rparr>) w = Returns (r, m', w1)"
    by (auto simp add: authPlain_def split: result.splits)
  then show ?thesis by (rule sendRecv_outcome)
qed

lemma auth_error_outcome:
  assumes "auth D w = Returns (Some e, w')" and "conn (sc w) \<noteq> None" and "rw (sc w)"
  shows "torn_down D (Some e) w w' \<or> still_open w w'"
proof -
  from auth_error_origin [OF assms(1)] consider
      s where "authList D w = Returns (s, Some e, w')"
    | s where "authList D w = Returns (s, None, w')"
    | s w1 where "authList D w = Returns (s, None, w1)" "authPlain D w1 = Returns (Some e, w')"
    by blast
  then show ?thesis
  proof cases
    case 1
    then show ?thesis by (rule authList_outcome)
  next
    case 2
    from authList_outcome [OF 2] show ?thesis
      by (simp add: torn_down_def)
  next
    case 3
    from authList_outcome [OF 3(1)] have o: "still_open w w1"
      by (simp add: torn_down_def)
    from authPlain_outcome [OF 3(2)] o show ?thesis
      by (auto simp add: torn_down_def still_open_def)
  qed
qed

text \<open>
  C6.  Let the dial succeed (and, for scheme "tcp", give a TCP connection), so that
  \<open>connect\<close> runs the authentication, and let the authentication return an error, which
  it does with credentials configured only: the error is that of the mechanism-list
  exchange, or the unknown-mechanism error when the list does not contain "PLAIN", or
  that of the PLAIN exchange.  If the status of the error is \<open>StatusUnknownCommand\<close>,
  \<open>connect\<close> returns no error and the connection stays established (given that this
  status is not \<open>StatusNetworkError\<close>).  If it is any other status, \<open>connect\<close> returns
  that error, and on return the socket has been closed exactly once and \<open>conn\<close> and
  \<open>rw\<close> are nil.
\<close>

theorem connect_auth_failure:
  assumes "scheme (sc w) = ''tcp'' \<longrightarrow> is_tcp"
    and "StatusUnknownCommand D \<noteq> StatusNetworkError D"
    and "auth D (dialled c w) = Returns (Some e, w3)"
  shows "(username (sc w) \<noteq> [] \<or> password (sc w) \<noteq> []) \<and>
         ((\<exists>s. authList D (dialled c w) = Returns (s, Some e, w3)) \<or>
          (\<exists>s. authList D (dialled c w) = Returns (s, None, w3) \<and> \<not> Contains s PLAIN \<and>
               Status e = StatusAuthUnknown D) \<or>
          (\<exists>s w1. authList D (dialled c w) = Returns (s, None, w1) \<and> Contains s PLAIN \<and>
               authPlain D w1 = Returns (Some e, w3))) \<and>
         (Status e = StatusUnknownCommand D \<longrightarrow>
            connect D (Some (c, is_tcp)) w = Returns (None, w3) \<and>
            conn (sc w3) \<noteq> None \<and> rw (sc w3) \<and> closes (sc w3) = closes (sc w)) \<and>
         (Status e \<noteq> StatusUnknownCommand D \<longrightarrow>
            (\<exists>w4. connect D (Some (c, is_tcp)) w = Returns (Some e, w4) \<and>
               conn (sc w4) = None \<and> \<not> rw (sc w4) \<and> closes (sc w4) = closes (sc w) + 1))"
proof -
  have d: "conn (sc (dialled c w)) \<noteq> None" "rw (sc (dialled c w))"
    "closes (sc (dialled c w)) = closes (sc w)"
    "username (sc (dialled c w)) = username (sc w)" "password (sc (dialled c w)) = password (sc w)"
    by (simp_all add: dialled_def)
  from auth_error_origin [OF assms(3)] have origin:
    "(username (sc w) \<noteq> [] \<or> password (sc w) \<noteq> []) \<and>
         ((\<exists>s. authList D (dialled c w) = Returns (s, Some e, w3)) \<or>
          (\<exists>s. authList D (dialled c w) = Returns (s, None, w3) \<and> \<not> Contains s PLAIN \<and>
               Status e = StatusAuthUnknown D) \<or>
          (\<exists>s w1. authList D (dialled c w) = Returns (s, None, w1) \<and> Contains s PLAIN \<and>
               authPlain D w1 = Returns (Some e, w3)))"
    unfolding d .
  have cn: "connect D (Some (c, is_tcp)) w =
      (if Status e \<noteq> StatusUnknownCommand D then
         (if conn (sc w3) \<noteq> None
          then Returns (Some e, w3\<lparr>sc := (sc w3)\<lparr>conn := None, rw := False,
                                      closes := closes (sc w3) + 1\<rparr>\<rparr>)
          else Returns (Some e, w3))
       else Returns (None, w3))"
    using assms(1,3) by (auto simp add: connect_def Let_def dialled_def)
  from auth_error_outcome [OF assms(3) d(1,2)] have
    o: "torn_down D (Some e) (dialled c w) w3 \<or> still_open (dialled c w) w3" .
  have uc: "Status e = StatusUnknownCommand D \<longrightarrow>
            connect D (Some (c, is_tcp)) w = Returns (None, w3) \<and>
            conn (sc w3) \<noteq> None \<and> rw (sc w3) \<and> closes (sc w3) = closes (sc w)"
    using o assms(2) cn d(3) by (auto simp add: torn_down_def still_open_def)
  have other: "Status e \<noteq> StatusUnknownCommand D \<longrightarrow>
            (\<exists>w4. connect D (Some (c, is_tcp)) w = Returns (Some e, w4) \<and>
               conn (sc w4) = None \<and> \<not> rw (sc w4) \<and> closes (sc w4) = closes (sc w) + 1)"
    using o cn d(3) by (auto simp add: torn_down_def still_open_def)
  from origin uc other show ?thesis
    by blast
qed

lemma exchange_status_reply:
  assumes "elts (iextras m) = []" and "elts (oextras m) = []"
    and "conn (sc w) = Some c" and "wfail c = None" and "rw (sc w)" and "pools_ok (pools w)"
    and "rd c = put_header (status_header st) @ rest" and "st \<noteq> 0"
    and "newError D st = Some e"
  shows "\<exists>m' w'. sendRecv D m w = Returns (Some e, m', w')"
proof -
  let ?H = "sent_header D m (sc w) (of_nat (length (extras_bytes (elts (iextras m)))))"
  let ?c1 = "c\<lparr>wr := wr c @ put_header ?H @ extras_bytes (elts (iextras m)) @ key m @ val m\<rparr>"
  let ?s1 = "(sc w)\<lparr>opq := opq (sc w) + 1, hdrBuf := put_header ?H, conn := Some ?c1\<rparr>"
  let ?m1 = "m\<lparr>header := ?H\<rparr>"
  let ?w1 = "w\<lparr>sc := ?s1\<rparr>"
  let ?R = "status_header st"
  have u: "list_all is_uint (elts (iextras m))"
    using assms(1) by simp
  have snd: "send D m (sc w) = Returns (None, ?m1, ?s1)"
    using send_nofail [OF u assms(3,4,5), of D] by simp
  have c1: "conn (sc ?w1) = Some ?c1" and rw1: "rw (sc ?w1)" and p1: "pools_ok (pools ?w1)"
    and rd1: "rd ?c1 = put_header ?R @ [] @ rest"
    using assms(5,6,7) by simp_all
  have ph: "parse_header (put_header ?R) = ?R"
    using parse_put_header [of ?R "[]"] by simp
  have lb: "length ([] :: byte list) = unat (BodyLen (parse_header (put_header ?R)))"
    unfolding ph by (simp add: status_header_def zero_header_def)
  have rb: "recv_body D (?m1\<lparr>header := ?R\<rparr>) [] (heap ?w1) =
      Returns (Some e, ?m1\<lparr>header := ?R, key := [], val := []\<rparr>, heap ?w1)"
    using assms(8,9) by (simp add: recv_body_def recv_key_def status_header_def zero_header_def)
  from recv_frame [OF c1 rw1 p1 rd1 length_put_header lb, of D ?m1] rb
  have "\<exists>m2 w2. recv D ?m1 ?w1 = Returns (Some e, m2, w2)"
    unfolding ph by auto
  with snd show ?thesis
    by (auto simp add: sendRecv_def)
qed

lemma auth_status_reply:
  assumes "st \<noteq> 0"
  shows "\<exists>w3. auth example_decls (dialled (peer (put_header (status_header st))) cred_world)
           = Returns (Some \<lparr>Status = st\<rparr>, w3)"
proof -
  let ?w = "dialled (peer (put_header (status_header st))) cred_world"
  let ?m = "zero_msg\<lparr>header := zero_header\<lparr>Op := opAuthList example_decls\<rparr>\<rparr>"
  have e: "elts (iextras ?m) = []" "elts (oextras ?m) = []"
    by (simp_all add: zero_msg_def nil_slice_def)
  have c: "conn (sc ?w) = Some (peer (put_header (status_header st)))"
    and wf: "wfail (peer (put_header (status_header st))) = None"
    and rw: "rw (sc ?w)" and p: "pools_ok (pools ?w)"
    and rd: "rd (peer (put_header (status_header st))) = put_header (status_header st) @ []"
    and un: "username (sc ?w) = [0x75]"
    by (simp_all add: dialled_def cred_world_def world_of_def open_conn_def peer_def pools_ok_empty)
  have ne: "newError example_decls st = Some \<lparr>Status = st\<rparr>"
    using assms by (simp add: example_decls_def)
  from exchange_status_reply [OF e c wf rw p rd assms ne] obtain m' w' where
    "sendRecv example_decls ?m ?w = Returns (Some \<lparr>Status = st\<rparr>, m', w')"
    by blast
  then have "auth example_decls ?w = Returns (Some \<lparr>Status = st\<rparr>, w')"
    by (simp add: auth_def authList_def un)
  then show ?thesis by blast
qed

text \<open>
  C6 at two concrete inputs: the server answers the mechanism list with status 0x81
  (unknown command), and with status 0x20.
\<close>

theorem connect_auth_failure_witness:
  "(\<exists>w3. connect example_decls (Some (peer (put_header (status_header 0x81)), True)) cred_world
        = Returns (None, w3) \<and>
      conn (sc w3) \<noteq> None \<and> rw (sc w3) \<and> closes (sc w3) = 0) \<and>
   (\<exists>e w4. connect example_decls (Some (peer (put_header (status_header 0x20)), True)) cred_world
        = Returns (Some e, w4) \<and>
      Status e = 0x20 \<and> conn (sc w4) = None \<and> \<not> rw (sc w4) \<and> closes (sc w4) = 1)"
proof
  have t: "scheme (sc cred_world) = ''tcp'' \<longrightarrow> True" by simp
  have d: "StatusUnknownCommand example_decls \<noteq> StatusNetworkError example_decls"
    by (simp add: example_decls_def)
  have z: "closes (sc cred_world) = 0"
    by (simp add: cred_world_def world_of_def open_conn_def)
  have "(0x81 :: 16 word) \<noteq> 0" by simp
  from auth_status_reply [OF this] obtain w3 where
    a: "auth example_decls (dialled (peer (put_header (status_header 0x81))) cred_world)
          = Returns (Some \<lparr>Status = 0x81\<rparr>, w3)"
    by blast
  from connect_auth_failure [OF t d a] z
  show "\<exists>w3. connect example_decls (Some (peer (put_header (status_header 0x81)), True)) cred_world
        = Returns (None, w3) \<and>
      conn (sc w3) \<noteq> None \<and> rw (sc w3) \<and> closes (sc w3) = 0"
    by (auto simp add: example_decls_def)
next
  have t: "scheme (sc cred_world) = ''tcp'' \<longrightarrow> True" by simp
  have d: "StatusUnknownCommand example_decls \<noteq> StatusNetworkError example_decls"
    by (simp add: example_decls_def)
  have z: "closes (sc cred_world) = 0"
    by (simp add: cred_world_def world_of_def open_conn_def)
  have "(0x20 :: 16 word) \<noteq> 0" by simp
  from auth_status_reply [OF this] obtain w3 where
    a: "auth example_decls (dialled (peer (put_header (status_header 0x20))) cred_world)
          = Returns (Some \<lparr>Status = 0x20\<rparr>, w3)"
    by blast
  from connect_auth_failure [OF t d a] z
  show "\<exists>e w4. connect example_decls (Some (peer (put_header (status_header 0x20)), True)) cred_world
        = Returns (Some e, w4) \<and>
      Status e = 0x20 \<and> conn (sc w4) = None \<and> \<not> rw (sc w4) \<and> closes (sc w4) = 1"
    by (auto simp add: example_decls_def)
qed

end
